theory Spec2Isabelle
  imports Main "HOL-Library.Sublist"
begin

section \<open>Python strings\<close>

text \<open>
  A string of \<^verbatim>\<open>app.py\<close> is modelled by its bytes in UTF-8, so an ASCII character is
  one byte and every other character is two to four bytes, none of them below 128.
  \<^verbatim>\<open>str.lower\<close> and \<^verbatim>\<open>str.strip\<close> are modelled on the ASCII characters:
  \<^verbatim>\<open>str.lower\<close> maps \<^verbatim>\<open>A-Z\<close> to \<^verbatim>\<open>a-z\<close> and leaves every other byte,
  \<^verbatim>\<open>str.strip\<close> removes the ASCII characters for which \<^verbatim>\<open>str.isspace\<close> holds. The
  regular expression class \<^verbatim>\<open>[^a-z0-9]\<close> is a set of ASCII characters as it is written;
  the class \<^verbatim>\<open>\D\<close> is Unicode-aware and is modelled as such below.
\<close>

definition ascii_uppercase :: string where
  "ascii_uppercase = ''ABCDEFGHIJKLMNOPQRSTUVWXYZ''"

definition ascii_lowercase :: string where
  "ascii_lowercase = ''abcdefghijklmnopqrstuvwxyz''"

definition digits :: string where
  "digits = ''0123456789''"

definition lower_char :: "char \<Rightarrow> char" where
  "lower_char c = (case map_of (zip ascii_uppercase ascii_lowercase) c of
                     Some d \<Rightarrow> d | None \<Rightarrow> c)"

definition py_lower :: "string \<Rightarrow> string" where
  "py_lower s = map lower_char s"

definition whitespace :: string where
  "whitespace = [CHR 0x09, CHR 0x0A, CHR 0x0B, CHR 0x0C, CHR 0x0D,
                 CHR 0x1C, CHR 0x1D, CHR 0x1E, CHR 0x1F, CHR 0x20]"

definition is_space :: "char \<Rightarrow> bool" where
  "is_space c = (c \<in> set whitespace)"

definition py_strip :: "string \<Rightarrow> string" where
  "py_strip s = rev (dropWhile is_space (rev (dropWhile is_space s)))"

text \<open>\<^verbatim>\<open>sub in s\<close> on strings: \<^verbatim>\<open>sub\<close> occurs in \<^verbatim>\<open>s\<close> as a contiguous run.\<close>

fun py_in :: "string \<Rightarrow> string \<Rightarrow> bool" where
  "py_in sub [] = (sub = [])"
| "py_in sub (c # cs) = (prefix sub (c # cs) \<or> py_in sub cs)"

text \<open>\<^verbatim>\<open>re.sub(r"[^a-z0-9]+", "", s)\<close>: every maximal run of characters outside the class
  is replaced by the empty string, so exactly the characters of the class stay, in order.
  No byte of a character beyond ASCII is in the class.\<close>

definition sub_non_alnum :: "string \<Rightarrow> string" where
  "sub_non_alnum s = filter (\<lambda>c. c \<in> set (ascii_lowercase @ digits)) s"

text \<open>The characters of a string: the first byte of a character in UTF-8 gives the number
  of its bytes.\<close>

definition utf8_len :: "char \<Rightarrow> nat" where
  "utf8_len c =
     (if (of_char c :: nat) < 0xC0 then 1
      else if (of_char c :: nat) < 0xE0 then 2
      else if (of_char c :: nat) < 0xF0 then 3
      else 4)"

function utf8_chars :: "string \<Rightarrow> string list" where
  "utf8_chars [] = []"
| "utf8_chars (c # cs) = (c # take (utf8_len c - 1) cs) # utf8_chars (drop (utf8_len c - 1) cs)"
  by pat_completeness auto
termination
  by (relation "measure length") auto

text \<open>\<^verbatim>\<open>\d\<close> in a pattern on \<^verbatim>\<open>str\<close> matches every Unicode decimal digit: the ASCII
  digits \<^verbatim>\<open>0-9\<close> and, beyond ASCII, the characters that the Unicode database of the
  Python in use lists as decimal digits. That table is no part of the repository; it is
  the parameter \<open>nd\<close>, which says of a character of more than one byte whether it is a
  decimal digit.\<close>

fun is_decimal :: "(string \<Rightarrow> bool) \<Rightarrow> string \<Rightarrow> bool" where
  "is_decimal nd [c] = (c \<in> set digits)"
| "is_decimal nd ch = nd ch"

text \<open>\<^verbatim>\<open>re.sub(r"\D+", "", s)\<close>: every maximal run of characters that are no decimal digits
  is replaced by the empty string, so exactly the decimal digits stay, in order.\<close>

definition sub_non_digit :: "(string \<Rightarrow> bool) \<Rightarrow> string \<Rightarrow> string" where
  "sub_non_digit nd s = concat (filter (is_decimal nd) (utf8_chars s))"

text \<open>\<^verbatim>\<open>str(n)\<close> on an integer: the decimal numeral, with a minus sign when negative.\<close>

fun str_nat :: "nat \<Rightarrow> string" where
  "str_nat n = (if n < 10 then [digits ! n] else str_nat (n div 10) @ [digits ! (n mod 10)])"

declare str_nat.simps [simp del]

definition str_int :: "int \<Rightarrow> string" where
  "str_int i = (if i < 0 then CHR ''-'' # str_nat (nat (- i)) else str_nat (nat i))"

section \<open>Configuration\<close>

definition REQUIRED_COLUMNS :: "(string \<times> string list) list" where
  "REQUIRED_COLUMNS =
    [(''id'', [''id'', ''record_id'', ''sr_no'', ''sno'', ''index'']),
     (''city'', [''city'', ''location'', ''area'', ''district'', ''place'', ''town'']),
     (''name'', [''provider'', ''provider_name'', ''name'', ''organisation'',
                 ''organization'', ''org'', ''ngo'', ''restaurant'']),
     (''role'', [''role'', ''type'', ''entity'', ''party'', ''stakeholder'']),
     (''food_type'', [''food_type'', ''food'', ''category'', ''cuisine'']),
     (''meal_type'', [''meal_type'', ''meal'', ''course'']),
     (''phone'', [''phone'', ''mobile'', ''contact'', ''contact_number'', ''phone_no'',
                  ''phone_number'']),
     (''email'', [''email'', ''mail'', ''email_id'']),
     (''address'', [''address'', ''addr'', ''street'']),
     (''notes'', [''notes'', ''remarks'', ''comment'', ''comments'', ''description''])]"

definition DEFAULT_COLUMNS :: "string list" where
  "DEFAULT_COLUMNS = [''id'', ''city'', ''name'', ''role'', ''food_type'', ''meal_type'',
                      ''phone'', ''email'', ''address'', ''notes'']"

text \<open>The literal list of line 54: the fields that must be mapped.\<close>

definition MANDATORY :: "string list" where
  "MANDATORY = [''city'', ''name'', ''role'', ''food_type'', ''phone'']"

section \<open>Helpers\<close>

definition normalize :: "string \<Rightarrow> string" where
  "normalize s = sub_non_alnum (py_lower (py_strip s))"

text \<open>The dict comprehension \<^verbatim>\<open>{normalize(c): c for c in df_cols}\<close>: the keys are inserted
  in the order of the columns, a later column replacing an earlier one with the same key.\<close>

definition nmap_of :: "string list \<Rightarrow> (string \<rightharpoonup> string)" where
  "nmap_of df_cols = foldl (\<lambda>m c. m(normalize c \<mapsto> c)) Map.empty df_cols"

text \<open>The first loop of \<^verbatim>\<open>try_match_column\<close>: the candidates in order, the first whose key
  is in the dict returns.\<close>

fun exact_pass :: "(string \<rightharpoonup> string) \<Rightarrow> string list \<Rightarrow> string option" where
  "exact_pass nmap [] = None"
| "exact_pass nmap (cand # cands) =
     (case nmap (normalize cand) of Some c \<Rightarrow> Some c | None \<Rightarrow> exact_pass nmap cands)"

text \<open>The second loop (``fuzzy contains''): the columns in order, the first whose normalized
  name contains the normalized form of any candidate returns.\<close>

fun fuzzy_pass :: "string list \<Rightarrow> string list \<Rightarrow> string option" where
  "fuzzy_pass [] candidates = None"
| "fuzzy_pass (col # cols) candidates =
     (if list_ex (\<lambda>alias. py_in (normalize alias) (normalize col)) candidates
      then Some col else fuzzy_pass cols candidates)"

definition try_match_column :: "string list \<Rightarrow> string list \<Rightarrow> string option" where
  "try_match_column df_cols candidates =
     (case exact_pass (nmap_of df_cols) candidates of
        Some c \<Rightarrow> Some c
      | None \<Rightarrow> fuzzy_pass df_cols candidates)"

section \<open>Data frames\<close>

text \<open>
  A cell of a pandas column: a missing value, a string or an integer. Floating-point
  cells are outside the model. A data frame is its index length (the index is always the
  default \<^verbatim>\<open>RangeIndex\<close> here) and its columns in order.
\<close>

datatype cell = NaN | Str string | Num int

record dataframe =
  nrows :: nat
  cols :: "(string \<times> cell list) list"

datatype error = StopException | KeyError | TypeError

text \<open>\<^verbatim>\<open>pd.DataFrame()\<close>: no index, no columns.\<close>

definition empty_frame :: dataframe where
  "empty_frame = \<lparr>nrows = 0, cols = []\<rparr>"

definition df_columns :: "dataframe \<Rightarrow> string list" where
  "df_columns df = map fst (cols df)"

text \<open>\<^verbatim>\<open>df[c]\<close>; \<^verbatim>\<open>None\<close> stands for the \<^verbatim>\<open>KeyError\<close> of a label that is no column.\<close>

definition getitem :: "dataframe \<Rightarrow> string \<Rightarrow> cell list option" where
  "getitem df c = map_of (cols df) c"

text \<open>A well-formed frame, as \<^verbatim>\<open>pd.read_csv\<close> returns it: the column labels are distinct
  and every column has one cell per index entry.\<close>

definition wf_df :: "dataframe \<Rightarrow> bool" where
  "wf_df df = (distinct (df_columns df) \<and> list_all (\<lambda>(c, vs). length vs = nrows df) (cols df))"

text \<open>Reindexing the values of a \<^verbatim>\<open>RangeIndex\<close> to the first \<open>n\<close> labels: the labels that
  are there keep their value, the others get \<^verbatim>\<open>NaN\<close>.\<close>

definition reindex :: "nat \<Rightarrow> cell list \<Rightarrow> cell list" where
  "reindex n vs = take n vs @ replicate (n - length vs) NaN"

text \<open>Storing the values of a column: in place when the label is a column, as a new last
  column otherwise.\<close>

definition put_col :: "string \<Rightarrow> cell list \<Rightarrow> dataframe \<Rightarrow> dataframe" where
  "put_col c vs df =
     (if c \<in> set (df_columns df)
      then df\<lparr>cols := map (\<lambda>(k, xs). if k = c then (k, vs) else (k, xs)) (cols df)\<rparr>
      else df\<lparr>cols := cols df @ [(c, vs)]\<rparr>)"

text \<open>\<^verbatim>\<open>df[c] = v\<close> for a scalar \<open>v\<close>: one copy of \<open>v\<close> per index entry, so none while the
  frame has no index yet.\<close>

definition setitem_scalar :: "dataframe \<Rightarrow> string \<Rightarrow> cell \<Rightarrow> dataframe" where
  "setitem_scalar df c v = put_col c (replicate (nrows df) v) df"

text \<open>\<^verbatim>\<open>df[c] = s\<close> for a Series \<open>s\<close> (\<^verbatim>\<open>DataFrame._ensure_valid_index\<close>, then
  \<^verbatim>\<open>_reindex_for_setitem\<close>): a frame whose index is empty takes the index of a non-empty
  \<open>s\<close>, its columns reindexed and so filled with \<^verbatim>\<open>NaN\<close>; then \<open>s\<close> is aligned with
  the index of the frame and stored.\<close>

definition setitem_series :: "dataframe \<Rightarrow> string \<Rightarrow> cell list \<Rightarrow> dataframe" where
  "setitem_series df c vs =
     (let df' = (if nrows df = 0 \<and> 0 < length vs
                 then \<lparr>nrows = length vs,
                       cols = map (\<lambda>(k, xs). (k, reindex (length vs) xs)) (cols df)\<rparr>
                 else df)
      in put_col c (reindex (nrows df') vs) df')"

text \<open>\<^verbatim>\<open>str(v)\<close> on a cell: a missing value gives the string \<^verbatim>\<open>nan\<close>.\<close>

fun py_str :: "cell \<Rightarrow> string" where
  "py_str NaN = ''nan''"
| "py_str (Str s) = s"
| "py_str (Num i) = str_int i"

fun isna :: "cell \<Rightarrow> bool" where
  "isna NaN = True"
| "isna _ = False"

text \<open>The repository pins no version of pandas, and \<^verbatim>\<open>astype(str)\<close> depends on it: in
  pandas 2 every cell becomes its \<^verbatim>\<open>str\<close>, a missing value the string \<^verbatim>\<open>nan\<close>; in
  pandas 3 the column gets the string dtype and a missing value stays missing.\<close>

datatype pandas = Pandas2 | Pandas3

definition astype_str :: "pandas \<Rightarrow> cell \<Rightarrow> cell" where
  "astype_str pd v = (if isna v \<and> pd = Pandas3 then NaN else Str (py_str v))"

text \<open>\<^verbatim>\<open>Series.apply(f)\<close>: \<open>f\<close> on the cells in order; the first exception that \<open>f\<close>
  raises ends the call.\<close>

fun apply_series :: "(cell \<Rightarrow> error + cell) \<Rightarrow> cell list \<Rightarrow> error + cell list" where
  "apply_series f [] = Inr []"
| "apply_series f (v # vs) =
     (case f v of
        Inl e \<Rightarrow> Inl e
      | Inr y \<Rightarrow> (case apply_series f vs of Inl e \<Rightarrow> Inl e | Inr ys \<Rightarrow> Inr (y # ys)))"

text \<open>\<^verbatim>\<open>pd.factorize(values)[0]\<close>: the code of a value is the position of its first
  occurrence among the distinct non-missing values seen so far; a missing value gets the
  sentinel \<open>-1\<close>.\<close>

fun index_of :: "'a list \<Rightarrow> 'a \<Rightarrow> nat option" where
  "index_of [] v = None"
| "index_of (u # us) v = (if u = v then Some 0 else map_option Suc (index_of us v))"

fun factorize_from :: "cell list \<Rightarrow> cell list \<Rightarrow> int list" where
  "factorize_from uniques [] = []"
| "factorize_from uniques (v # vs) =
     (if isna v then - 1 # factorize_from uniques vs
      else case index_of uniques v of
             Some i \<Rightarrow> int i # factorize_from uniques vs
           | None \<Rightarrow> int (length uniques) # factorize_from (uniques @ [v]) vs)"

definition factorize :: "cell list \<Rightarrow> int list" where
  "factorize vs = factorize_from [] vs"

text \<open>\<^verbatim>\<open>df.fillna(v)\<close>.\<close>

definition fillna :: "cell \<Rightarrow> dataframe \<Rightarrow> dataframe" where
  "fillna v df = df\<lparr>cols := map (\<lambda>(c, xs). (c, map (\<lambda>x. if isna x then v else x) xs)) (cols df)\<rparr>"

section \<open>The schema normalizer\<close>

text \<open>The dict \<^verbatim>\<open>mapping\<close>: its items in insertion order.\<close>

type_synonym mapping = "(string \<times> string option) list"

fun dict_set :: "string \<Rightarrow> string option \<Rightarrow> mapping \<Rightarrow> mapping" where
  "dict_set k v [] = [(k, v)]"
| "dict_set k v ((k', v') # m) = (if k' = k then (k, v) # m else (k', v') # dict_set k v m)"

text \<open>\<^verbatim>\<open>mapping.get(k)\<close>: \<^verbatim>\<open>None\<close> for a key that is absent and for a key mapped to
  \<^verbatim>\<open>None\<close>.\<close>

definition dict_get :: "mapping \<Rightarrow> string \<Rightarrow> string option" where
  "dict_get m k = (case map_of m k of Some v \<Rightarrow> v | None \<Rightarrow> None)"

definition build_mapping :: "dataframe \<Rightarrow> mapping" where
  "build_mapping dfc =
     map (\<lambda>(target, aliases). (target, try_match_column (df_columns dfc) aliases))
       REQUIRED_COLUMNS"

definition missing_of :: "mapping \<Rightarrow> string list" where
  "missing_of m = map fst (filter (\<lambda>(k, v). v = None \<and> k \<in> set MANDATORY) m)"

text \<open>The interactive mapping: \<open>selectbox k\<close> is what the user picks in the select box of
  field \<open>k\<close>, \<^verbatim>\<open>None\<close> (the first option, preselected) or a column of the frame.\<close>

definition ask_missing :: "(string \<Rightarrow> string option) \<Rightarrow> mapping \<Rightarrow> string list \<Rightarrow> mapping" where
  "ask_missing selectbox m missing = foldl (\<lambda>m k. dict_set k (selectbox k) m) m missing"

text \<open>``Create unified dataframe'': one column per default column, the mapped source
  column when there is one and the scalar \<^verbatim>\<open>""\<close> otherwise.\<close>

definition project_step :: "dataframe \<Rightarrow> mapping \<Rightarrow> dataframe \<Rightarrow> string \<Rightarrow> dataframe" where
  "project_step dfc m unified target =
     (case dict_get m target of
        None \<Rightarrow> setitem_scalar unified target (Str '''')
      | Some src \<Rightarrow>
          (case getitem dfc src of
             Some vs \<Rightarrow> setitem_series unified target vs
           | None \<Rightarrow> setitem_scalar unified target (Str '''')))"

definition project_cols :: "dataframe \<Rightarrow> mapping \<Rightarrow> string list \<Rightarrow> dataframe" where
  "project_cols dfc m targets = foldl (project_step dfc m) empty_frame targets"

definition project :: "dataframe \<Rightarrow> mapping \<Rightarrow> dataframe" where
  "project dfc m = project_cols dfc m DEFAULT_COLUMNS"

text \<open>``Coerce ID''.\<close>

definition coerce_id :: "dataframe \<Rightarrow> error + dataframe" where
  "coerce_id unified =
     (case getitem unified ''id'' of
        None \<Rightarrow> Inl KeyError
      | Some ids \<Rightarrow>
          if list_all isna ids \<or> list_all (\<lambda>v. v = Str '''') ids
          then Inr (put_col ''id'' (map (\<lambda>k. Num (int k)) [1..<nrows unified + 1]) unified)
          else Inr (put_col ''id'' (map (\<lambda>code. Num (code + 1)) (factorize ids)) unified))"

text \<open>``Normalize role values''.\<close>

definition normalize_role :: "cell \<Rightarrow> string" where
  "normalize_role v =
     (let t = py_lower (py_strip (py_str v))
      in if py_in ''receiv'' t \<or> t \<in> set [''receiver'', ''acceptor'', ''beneficiary'']
         then ''Receiver''
         else if t \<noteq> [] then ''Provider'' else ''Provider'')"

definition apply_role :: "dataframe \<Rightarrow> error + dataframe" where
  "apply_role unified =
     (case getitem unified ''role'' of
        None \<Rightarrow> Inl KeyError
      | Some rs \<Rightarrow> Inr (put_col ''role'' (map (\<lambda>v. Str (normalize_role v)) rs) unified))"

text \<open>``Clean phone''. The function \<^verbatim>\<open>lambda x: re.sub(r"\D+", "", x)\<close> raises
  \<^verbatim>\<open>TypeError\<close> on a cell that is no string, as \<^verbatim>\<open>re.sub\<close> does.\<close>

fun phone_lambda :: "(string \<Rightarrow> bool) \<Rightarrow> cell \<Rightarrow> error + cell" where
  "phone_lambda nd (Str x) = Inr (Str (sub_non_digit nd x))"
| "phone_lambda nd x = Inl TypeError"

definition clean_phone :: "pandas \<Rightarrow> (string \<Rightarrow> bool) \<Rightarrow> dataframe \<Rightarrow> error + dataframe" where
  "clean_phone pd nd unified =
     (case getitem unified ''phone'' of
        None \<Rightarrow> Inl KeyError
      | Some ps \<Rightarrow>
          (case apply_series (phone_lambda nd) (map (astype_str pd) ps) of
             Inl e \<Rightarrow> Inl e
           | Inr ys \<Rightarrow> Inr (put_col ''phone'' ys unified)))"

text \<open>\<^verbatim>\<open>ensure_schema\<close>, under the pandas \<open>pd\<close> and the table \<open>nd\<close> of the decimal
  digits beyond ASCII.\<close>

definition ensure_schema ::
  "pandas \<Rightarrow> (string \<Rightarrow> bool) \<Rightarrow> (string \<Rightarrow> string option) \<Rightarrow> dataframe \<Rightarrow> error + dataframe" where
  "ensure_schema pd nd selectbox df =
     (let dfc = df;
          missing = missing_of (build_mapping dfc);
          m = ask_missing selectbox (build_mapping dfc) missing
      in if missing \<noteq> [] \<and> list_ex (\<lambda>k. dict_get m k = None) missing
         then Inl StopException
         else case coerce_id (project dfc m) of
                Inl e \<Rightarrow> Inl e
              | Inr u1 \<Rightarrow>
                  (case apply_role u1 of
                     Inl e \<Rightarrow> Inl e
                   | Inr u2 \<Rightarrow>
                       (case clean_phone pd nd u2 of
                          Inl e \<Rightarrow> Inl e
                        | Inr u3 \<Rightarrow> Inr (fillna (Str '''') u3))))"

section \<open>Contact links\<close>

text \<open>\<^verbatim>\<open>urllib.parse.quote_plus\<close> on the bytes of a string: the unreserved characters
  stay, a space becomes \<^verbatim>\<open>+\<close>, every other byte becomes \<^verbatim>\<open>%XX\<close> in upper-case
  hexadecimal.\<close>

definition always_safe :: string where
  "always_safe = ascii_uppercase @ ascii_lowercase @ digits @ ''_.-~''"

definition hex_digit :: "nat \<Rightarrow> char" where
  "hex_digit n = ''0123456789ABCDEF'' ! n"

definition quote_char :: "char \<Rightarrow> string" where
  "quote_char c =
     (if c \<in> set always_safe then [c]
      else if c = CHR '' '' then ''+''
      else [CHR ''%'', hex_digit (of_char c div 16), hex_digit (of_char c mod 16)])"

definition quote_plus :: "string \<Rightarrow> string" where
  "quote_plus s = concat (map quote_char s)"

definition whatsapp_link :: "(string \<Rightarrow> bool) \<Rightarrow> string \<Rightarrow> string \<Rightarrow> string" where
  "whatsapp_link nd phone msg =
     (let phone_digits = sub_non_digit nd phone
      in ''https://wa.me/'' @ phone_digits @ ''?text='' @ quote_plus msg)"

definition tel_link :: "(string \<Rightarrow> bool) \<Rightarrow> string \<Rightarrow> string" where
  "tel_link nd phone = (let phone_digits = sub_non_digit nd phone in ''tel:'' @ phone_digits)"

definition mailto_link :: "string \<Rightarrow> string \<Rightarrow> string \<Rightarrow> string" where
  "mailto_link email subject body =
     ''mailto:'' @ email @ ''?subject='' @ quote_plus subject @ ''&body='' @ quote_plus body"

section \<open>Vocabulary of the properties\<close>

text \<open>An alias has an exact match when some raw column has its canonical form.\<close>

definition has_exact :: "string list \<Rightarrow> string \<Rightarrow> bool" where
  "has_exact df_cols a = list_ex (\<lambda>c. normalize c = normalize a) df_cols"

text \<open>The source column of a target under a mapping: the values of the raw column the
  target is mapped to, when the target is mapped to a column of the frame.\<close>

definition resolved :: "dataframe \<Rightarrow> mapping \<Rightarrow> string \<Rightarrow> cell list option" where
  "resolved dfc m target =
     (case dict_get m target of None \<Rightarrow> None | Some src \<Rightarrow> getitem dfc src)"

text \<open>Whether some target of a list is mapped to a column of the frame.\<close>

definition any_resolved :: "dataframe \<Rightarrow> mapping \<Rightarrow> string list \<Rightarrow> bool" where
  "any_resolved dfc m targets = list_ex (\<lambda>t. resolved dfc m t \<noteq> None) targets"

text \<open>The targets that come before a target in a list.\<close>

definition before :: "string \<Rightarrow> string list \<Rightarrow> string list" where
  "before t targets = takeWhile (\<lambda>x. x \<noteq> t) targets"

text \<open>A rectangular frame: every column has one cell per index entry.\<close>

definition rect :: "dataframe \<Rightarrow> bool" where
  "rect u = list_all (\<lambda>(c, vs). length vs = nrows u) (cols u)"

text \<open>The case of \<^verbatim>\<open>_ensure_valid_index\<close> in which the frame takes the index of the
  values, and the frame after that step.\<close>

definition grows :: "dataframe \<Rightarrow> cell list \<Rightarrow> bool" where
  "grows u vs = (nrows u = 0 \<and> 0 < length vs)"

definition grown :: "dataframe \<Rightarrow> cell list \<Rightarrow> dataframe" where
  "grown u vs = (if grows u vs
     then \<lparr>nrows = length vs, cols = map (\<lambda>(k, xs). (k, reindex (length vs) xs)) (cols u)\<rparr>
     else u)"

text \<open>The column a target has after the projection: the values of its source column,
  or one cell per row of the unified frame, the empty string when a target before it is
  mapped to a column and the missing value when none is.\<close>

definition expected_col :: "dataframe \<Rightarrow> mapping \<Rightarrow> string list \<Rightarrow> string \<Rightarrow> cell list" where
  "expected_col dfc m targets t =
     (case resolved dfc m t of
        Some vs \<Rightarrow> vs
      | None \<Rightarrow>
          replicate (if any_resolved dfc m targets then nrows dfc else 0)
            (if any_resolved dfc m (before t targets) then Str '''' else NaN))"

text \<open>The mapping after the interactive step, and the condition under which the
  script stops there: a mandatory field that alias matching left unmapped and for which the
  user selects no column.\<close>

definition final_mapping :: "(string \<Rightarrow> string option) \<Rightarrow> dataframe \<Rightarrow> mapping" where
  "final_mapping selectbox dfc =
     ask_missing selectbox (build_mapping dfc) (missing_of (build_mapping dfc))"

definition unresolved :: "(string \<Rightarrow> string option) \<Rightarrow> dataframe \<Rightarrow> bool" where
  "unresolved selectbox dfc =
     list_ex (\<lambda>k. dict_get (build_mapping dfc) k = None \<and> selectbox k = None) MANDATORY"

text \<open>The ids that the step ``Coerce ID'' stores for the ids it finds.\<close>

definition new_ids :: "dataframe \<Rightarrow> cell list \<Rightarrow> cell list" where
  "new_ids u ids =
     (if list_all isna ids \<or> list_all (\<lambda>v. v = Str '''') ids
      then map (\<lambda>k. Num (int k)) [1..<nrows u + 1]
      else map (\<lambda>code. Num (code + 1)) (factorize ids))"

text \<open>The frames between the steps of \<^verbatim>\<open>ensure_schema\<close>.\<close>

definition after_id :: "dataframe \<Rightarrow> cell list \<Rightarrow> dataframe" where
  "after_id u ids = put_col ''id'' (new_ids u ids) u"

definition after_role :: "dataframe \<Rightarrow> cell list \<Rightarrow> dataframe" where
  "after_role u rs = put_col ''role'' (map (\<lambda>v. Str (normalize_role v)) rs) u"

definition after_phone :: "(string \<Rightarrow> bool) \<Rightarrow> dataframe \<Rightarrow> cell list \<Rightarrow> dataframe" where
  "after_phone nd u ps = put_col ''phone'' (map (\<lambda>v. Str (sub_non_digit nd (py_str v))) ps) u"

text \<open>\<^verbatim>\<open>pd.factorize(values)[1]\<close>: the distinct non-missing values in the order in which
  they are first seen, and the code of a value with respect to them.\<close>

fun uniques_from :: "cell list \<Rightarrow> cell list \<Rightarrow> cell list" where
  "uniques_from us [] = us"
| "uniques_from us (v # vs) =
     (if isna v \<or> v \<in> set us then uniques_from us vs else uniques_from (us @ [v]) vs)"

definition code_of :: "cell list \<Rightarrow> cell \<Rightarrow> int" where
  "code_of us v = (if isna v then - 1 else case index_of us v of Some i \<Rightarrow> int i | None \<Rightarrow> - 1)"

text \<open>The condition under which the step ``Clean phone'' raises: the pandas keeps a
  missing value under \<^verbatim>\<open>astype(str)\<close> and a cell of the phone is missing.\<close>

definition phone_fails :: "pandas \<Rightarrow> cell list \<Rightarrow> bool" where
  "phone_fails pd ps = (pd = Pandas3 \<and> list_ex isna ps)"

section \<open>Example tables\<close>

text \<open>The table of the scenario of the specification: one row, the id cell empty.\<close>

definition scenario_table :: dataframe where
  "scenario_table =
     \<lparr>nrows = 1,
      cols = [(''Sr No'', [NaN]), (''Org'', [Str ''Helping Hands'']),
              (''Type'', [Str ''Provider'']), (''City'', [Str ''Pune'']),
              (''Food'', [Str ''Veg Meals'']), (''Contact No'', [Str ''98765-43210''])]\<rparr>"

text \<open>A table with no column for the id.\<close>

definition no_id_table :: dataframe where
  "no_id_table =
     \<lparr>nrows = 2,
      cols = [(''City'', [Str ''Pune'', Str ''Mumbai'']), (''Name'', [Str ''A'', Str ''B'']),
              (''Role'', [Str ''Provider'', Str ''Receiver'']),
              (''Food'', [Str ''Veg'', Str ''Bread'']),
              (''Phone'', [Str ''111'', Str ''222''])]\<rparr>"

text \<open>A table with no column for the city.\<close>

definition no_city_table :: dataframe where
  "no_city_table =
     \<lparr>nrows = 1,
      cols = [(''Name'', [Str ''A'']), (''Role'', [Str ''Provider'']),
              (''Food'', [Str ''Veg'']), (''Phone'', [Str ''111''])]\<rparr>"

text \<open>Two rows with the same raw id.\<close>

definition same_id_table :: dataframe where
  "same_id_table =
     \<lparr>nrows = 2,
      cols = [(''ID'', [Str ''A1'', Str ''A1'']), (''City'', [Str ''Pune'', Str ''Mumbai'']),
              (''Name'', [Str ''A'', Str ''B'']),
              (''Role'', [Str ''Provider'', Str ''Receiver'']),
              (''Food'', [Str ''Veg'', Str ''Bread'']),
              (''Phone'', [Str ''111'', Str ''222''])]\<rparr>"

text \<open>Two rows, the id of the first left empty in the file.\<close>

definition blank_id_table :: dataframe where
  "blank_id_table =
     \<lparr>nrows = 2,
      cols = [(''ID'', [NaN, Str ''A1'']), (''City'', [Str ''Pune'', Str ''Mumbai'']),
              (''Name'', [Str ''A'', Str ''B'']),
              (''Role'', [Str ''Provider'', Str ''Receiver'']),
              (''Food'', [Str ''Veg'', Str ''Bread'']),
              (''Phone'', [Str ''111'', Str ''222''])]\<rparr>"

text \<open>Three rows, the id of the second left empty in the file.\<close>

definition gap_id_table :: dataframe where
  "gap_id_table =
     \<lparr>nrows = 3,
      cols = [(''ID'', [Str ''A1'', NaN, Str ''B2'']),
              (''City'', [Str ''Pune'', Str ''Mumbai'', Str ''Delhi'']),
              (''Name'', [Str ''A'', Str ''B'', Str ''C'']),
              (''Role'', [Str ''Provider'', Str ''Receiver'', Str ''Provider'']),
              (''Food'', [Str ''Veg'', Str ''Bread'', Str ''Rice'']),
              (''Phone'', [Str ''111'', Str ''222'', Str ''333''])]\<rparr>"

text \<open>The user who leaves every select box at its first option.\<close>

definition no_selection :: "string \<Rightarrow> string option" where
  "no_selection k = None"

text \<open>The mapping that alias matching builds for the table with no id column.\<close>

definition no_id_mapping :: mapping where
  "no_id_mapping =
     [(''id'', None), (''city'', Some ''City''), (''name'', Some ''Name''),
      (''role'', Some ''Role''), (''food_type'', Some ''Food''), (''meal_type'', None),
      (''phone'', Some ''Phone''), (''email'', None), (''address'', None), (''notes'', None)]"

text \<open>What the normalizer returns for the table of the scenario.\<close>

definition scenario_result :: dataframe where
  "scenario_result =
     \<lparr>nrows = 1,
      cols = [(''id'', [Num 1]), (''city'', [Str ''Pune'']), (''name'', [Str ''Helping Hands'']),
              (''role'', [Str ''Provider'']), (''food_type'', [Str ''Veg Meals'']),
              (''meal_type'', [Str '''']), (''phone'', [Str ''9876543210'']),
              (''email'', [Str '''']), (''address'', [Str '''']), (''notes'', [Str ''''])]\<rparr>"

text \<open>A part of the table of the decimal digits beyond ASCII: the Arabic-Indic digits
  U+0660 to U+0669, in UTF-8. The example tables have ASCII characters only, so that no
  other part of the table matters for them.\<close>

definition arabic_indic :: "string \<Rightarrow> bool" where
  "arabic_indic ch =
     (ch \<in> set [[CHR 0xD9, CHR 0xA0], [CHR 0xD9, CHR 0xA1], [CHR 0xD9, CHR 0xA2],
                [CHR 0xD9, CHR 0xA3], [CHR 0xD9, CHR 0xA4], [CHR 0xD9, CHR 0xA5],
                [CHR 0xD9, CHR 0xA6], [CHR 0xD9, CHR 0xA7], [CHR 0xD9, CHR 0xA8],
                [CHR 0xD9, CHR 0xA9]])"

text \<open>Two rows, the phone of the first left empty in the file.\<close>

definition blank_phone_table :: dataframe where
  "blank_phone_table =
     \<lparr>nrows = 2,
      cols = [(''City'', [Str ''Pune'', Str ''Mumbai'']), (''Name'', [Str ''A'', Str ''B'']),
              (''Role'', [Str ''Provider'', Str ''Receiver'']),
              (''Food'', [Str ''Veg'', Str ''Bread'']),
              (''Phone'', [NaN, Str ''222''])]\<rparr>"

text \<open>Two rows, the email of the first left empty in the file, and what the normalizer
  returns for them.\<close>

definition blank_email_table :: dataframe where
  "blank_email_table =
     \<lparr>nrows = 2,
      cols = [(''City'', [Str ''Pune'', Str ''Mumbai'']), (''Name'', [Str ''A'', Str ''B'']),
              (''Role'', [Str ''Provider'', Str ''Receiver'']),
              (''Food'', [Str ''Veg'', Str ''Bread'']),
              (''Phone'', [Str ''111'', Str ''222'']),
              (''Email'', [NaN, Str ''b@c.org''])]\<rparr>"

definition blank_email_result :: dataframe where
  "blank_email_result =
     \<lparr>nrows = 2,
      cols = [(''id'', [Num 1, Num 2]), (''city'', [Str ''Pune'', Str ''Mumbai'']),
              (''name'', [Str ''A'', Str ''B'']),
              (''role'', [Str ''Provider'', Str ''Receiver'']),
              (''food_type'', [Str ''Veg'', Str ''Bread'']),
              (''meal_type'', [Str '''', Str '''']),
              (''phone'', [Str ''111'', Str ''222'']),
              (''email'', [Str '''', Str ''b@c.org'']),
              (''address'', [Str '''', Str '''']), (''notes'', [Str '''', Str ''''])]\<rparr>"

section \<open>Properties of the string helpers\<close>

lemma py_in_sublist: "py_in sub s = sublist sub s"
  by (induction s) (auto simp: sublist_Cons_right)

lemma is_space_lower_char: "is_space (lower_char c) = is_space c"
  by (simp add: is_space_def lower_char_def whitespace_def ascii_uppercase_def
      ascii_lowercase_def)

lemma space_not_alnum: "is_space c \<Longrightarrow> c \<notin> set (ascii_lowercase @ digits)"
  apply (simp add: is_space_def whitespace_def)
  apply (elim disjE)
  apply (simp_all add: ascii_lowercase_def digits_def)
  done

lemma is_space_not_alnum: "is_space c \<Longrightarrow> lower_char c \<notin> set (ascii_lowercase @ digits)"
  using is_space_lower_char space_not_alnum by blast

lemma filter_dropWhile_irrelevant:
  "(\<And>c. Q c \<Longrightarrow> \<not> P c) \<Longrightarrow> filter P (dropWhile Q s) = filter P s"
  by (induction s) auto

lemma normalize_no_strip: "normalize s = sub_non_alnum (py_lower s)"
proof -
  let ?P = "\<lambda>c. lower_char c \<in> set (ascii_lowercase @ digits)"
  have 1: "filter ?P (dropWhile is_space (rev (dropWhile is_space s))) =
      filter ?P (rev (dropWhile is_space s))"
    by (rule filter_dropWhile_irrelevant) (rule is_space_not_alnum)
  have 2: "filter ?P (dropWhile is_space s) = filter ?P s"
    by (rule filter_dropWhile_irrelevant) (rule is_space_not_alnum)
  have "filter ?P (py_strip s) = rev (filter ?P (dropWhile is_space (rev (dropWhile is_space s))))"
    unfolding py_strip_def by (rule rev_filter [symmetric])
  also have "\<dots> = rev (filter ?P (rev (dropWhile is_space s)))"
    by (simp only: 1)
  also have "\<dots> = filter ?P (dropWhile is_space s)"
    by (simp only: rev_filter [symmetric] rev_rev_ident)
  finally have "filter ?P (py_strip s) = filter ?P s"
    by (simp only: 2)
  then show ?thesis
    by (simp add: normalize_def sub_non_alnum_def py_lower_def filter_map comp_def)
qed





lemma utf8_len_digit: "c \<in> set digits \<Longrightarrow> utf8_len c = 1"
  by (auto simp: digits_def utf8_len_def)

lemma utf8_chars_digits: "set s \<subseteq> set digits \<Longrightarrow> utf8_chars s = map (\<lambda>c. [c]) s"
  by (induction s) (simp_all add: utf8_len_digit)

lemma sub_non_digit_id: "set phone \<subseteq> set digits \<Longrightarrow> sub_non_digit nd phone = phone"
proof -
  assume a: "set phone \<subseteq> set digits"
  then have "filter (is_decimal nd) (map (\<lambda>c. [c]) phone) = map (\<lambda>c. [c]) phone"
    by (intro filter_True) auto
  with a show ?thesis
    by (simp add: sub_non_digit_def utf8_chars_digits)
qed

text \<open>A decimal digit beyond ASCII stays, as it does under \<^verbatim>\<open>\D\<close>: the text of
  \<^verbatim>\<open>a\<close>, the Arabic-Indic digit three and \<^verbatim>\<open>1\<close> keeps its last two characters.\<close>

lemma sub_non_digit_unicode:
  "sub_non_digit arabic_indic [CHR ''a'', CHR 0xD9, CHR 0xA3, CHR ''1''] =
     [CHR 0xD9, CHR 0xA3, CHR ''1'']"
  by code_simp

section \<open>Properties of the frame operations\<close>

lemma reindex_same: "length vs = n \<Longrightarrow> reindex n vs = vs"
  by (simp add: reindex_def)

lemma reindex_Nil: "reindex n [] = replicate n NaN"
  by (simp add: reindex_def)

lemma length_reindex: "length (reindex n vs) = n"
  by (simp add: reindex_def)

lemma map_of_replace:
  "map_of (map (\<lambda>(k, xs). if k = c then (k, vs) else (k, xs)) al) k' =
     (if k' = c then (if c \<in> fst ` set al then Some vs else None) else map_of al k')"
  by (induction al) (force split: if_splits)+

lemma map_fst_replace: "map fst (map (\<lambda>(k, xs). if k = c then (k, vs) else (k, xs)) al) = map fst al"
  by (induction al) auto

lemma df_columns_put_col:
  "df_columns (put_col c vs u) =
     (if c \<in> set (df_columns u) then df_columns u else df_columns u @ [c])"
proof (cases "c \<in> set (df_columns u)")
  case True
  then have "put_col c vs u = u\<lparr>cols := map (\<lambda>(k, xs). if k = c then (k, vs) else (k, xs)) (cols u)\<rparr>"
    by (simp add: put_col_def)
  then have "df_columns (put_col c vs u) =
      map fst (map (\<lambda>(k, xs). if k = c then (k, vs) else (k, xs)) (cols u))"
    by (simp add: df_columns_def del: map_map)
  with True show ?thesis
    by (simp only: map_fst_replace df_columns_def if_True)
next
  case False
  then show ?thesis
    by (simp add: put_col_def df_columns_def)
qed

lemma nrows_put_col: "nrows (put_col c vs u) = nrows u"
  by (simp add: put_col_def)

lemma getitem_put_col:
  "getitem (put_col c vs u) k = (if k = c then Some vs else getitem u k)"
proof (cases "c \<in> set (df_columns u)")
  case True
  then show ?thesis
    by (simp add: put_col_def getitem_def df_columns_def map_of_replace)
next
  case False
  then have "map_of (cols u) c = None"
    by (simp add: df_columns_def map_of_eq_None_iff)
  with False show ?thesis
    by (auto simp: put_col_def getitem_def map_add_def split: option.splits)
qed

lemma getitem_Some_columns: "getitem u c = Some vs \<Longrightarrow> c \<in> set (df_columns u)"
  by (auto simp: getitem_def df_columns_def dest: map_of_SomeD intro: rev_image_eqI)

lemma getitem_columns: "c \<in> set (df_columns u) \<Longrightarrow> \<exists>vs. getitem u c = Some vs"
  by (cases "getitem u c") (auto simp: getitem_def df_columns_def map_of_eq_None_iff)

lemma rect_getitem: "rect u \<Longrightarrow> getitem u c = Some vs \<Longrightarrow> length vs = nrows u"
  by (auto simp: rect_def getitem_def list_all_iff dest: map_of_SomeD)

lemma rect_put_col: "rect u \<Longrightarrow> length vs = nrows u \<Longrightarrow> rect (put_col c vs u)"
  by (auto simp: rect_def put_col_def list_all_iff split: if_splits)

lemma wf_df_rect: "wf_df u = (distinct (df_columns u) \<and> rect u)"
  by (simp add: wf_df_def rect_def)

lemma wf_put_col:
  "wf_df u \<Longrightarrow> c \<in> set (df_columns u) \<Longrightarrow> length vs = nrows u \<Longrightarrow> wf_df (put_col c vs u)"
  by (simp add: wf_df_rect rect_put_col df_columns_put_col)

lemma df_columns_setitem_scalar:
  "df_columns (setitem_scalar u c v) =
     (if c \<in> set (df_columns u) then df_columns u else df_columns u @ [c])"
  by (simp add: setitem_scalar_def df_columns_put_col)

lemma nrows_setitem_scalar: "nrows (setitem_scalar u c v) = nrows u"
  by (simp add: setitem_scalar_def nrows_put_col)

lemma getitem_setitem_scalar:
  "getitem (setitem_scalar u c v) k =
     (if k = c then Some (replicate (nrows u) v) else getitem u k)"
  by (simp add: setitem_scalar_def getitem_put_col)

lemma rect_setitem_scalar: "rect u \<Longrightarrow> rect (setitem_scalar u c v)"
  by (simp add: setitem_scalar_def rect_put_col)

lemma setitem_series_grown:
  "setitem_series u c vs = put_col c (reindex (nrows (grown u vs)) vs) (grown u vs)"
  by (simp add: setitem_series_def grown_def grows_def Let_def)

lemma map_of_map_snd:
  "map_of (map (\<lambda>(k, xs). (k, f xs)) al) k = map_option f (map_of al k)"
  by (induction al) auto

lemma df_columns_grown: "df_columns (grown u vs) = df_columns u"
  by (simp add: grown_def df_columns_def comp_def case_prod_unfold)

lemma nrows_grown: "nrows (grown u vs) = (if grows u vs then length vs else nrows u)"
  by (simp add: grown_def)

lemma getitem_grown:
  "getitem (grown u vs) k =
     (if grows u vs then map_option (reindex (length vs)) (getitem u k) else getitem u k)"
  by (simp add: grown_def getitem_def map_of_map_snd)

lemma rect_grown: "rect u \<Longrightarrow> rect (grown u vs)"
  by (auto simp: grown_def rect_def list_all_iff length_reindex)

lemma df_columns_setitem_series:
  "df_columns (setitem_series u c vs) =
     (if c \<in> set (df_columns u) then df_columns u else df_columns u @ [c])"
  by (simp add: setitem_series_grown df_columns_put_col df_columns_grown)

lemma nrows_setitem_series:
  "nrows (setitem_series u c vs) = (if grows u vs then length vs else nrows u)"
  by (simp add: setitem_series_grown nrows_put_col nrows_grown)

lemma getitem_setitem_series:
  "getitem (setitem_series u c vs) k =
     (if k = c then Some (reindex (if grows u vs then length vs else nrows u) vs)
      else if grows u vs then map_option (reindex (length vs)) (getitem u k)
      else getitem u k)"
  by (simp add: setitem_series_grown getitem_put_col getitem_grown nrows_grown)

lemma rect_setitem_series: "rect u \<Longrightarrow> rect (setitem_series u c vs)"
  by (simp add: setitem_series_grown rect_put_col rect_grown length_reindex)

lemma getitem_fillna:
  "getitem (fillna v u) k = map_option (map (\<lambda>x. if isna x then v else x)) (getitem u k)"
  by (simp add: fillna_def getitem_def map_of_map_snd)

lemma df_columns_fillna: "df_columns (fillna v u) = df_columns u"
  by (simp add: fillna_def df_columns_def comp_def case_prod_unfold)

lemma nrows_fillna: "nrows (fillna v u) = nrows u"
  by (simp add: fillna_def)

lemma rect_fillna: "rect u \<Longrightarrow> rect (fillna v u)"
  by (auto simp: rect_def fillna_def list_all_iff)

lemma cells_fillna:
  "(c, vs) \<in> set (cols (fillna (Str s) u)) \<Longrightarrow> NaN \<notin> set vs"
proof
  assume a: "(c, vs) \<in> set (cols (fillna (Str s) u))" and n: "NaN \<in> set vs"
  from a obtain xs where "vs = map (\<lambda>x. if isna x then Str s else x) xs"
    by (auto simp: fillna_def)
  with n obtain x where "NaN = (if isna x then Str s else x)"
    by auto
  then show False
    by (cases x) (auto split: if_splits)
qed

section \<open>Role values\<close>

lemma normalize_role_cases:
  "normalize_role v =
     (if sublist ''receiv'' (py_lower (py_strip (py_str v))) \<or>
         py_lower (py_strip (py_str v)) \<in> {''receiver'', ''acceptor'', ''beneficiary''}
      then ''Receiver'' else ''Provider'')"
  by (simp add: normalize_role_def Let_def py_in_sublist)




section \<open>Properties of the contact links\<close>

lemma hex_digit_safe: "n < 16 \<Longrightarrow> hex_digit n \<in> set ''0123456789ABCDEF''"
  unfolding hex_digit_def by (rule nth_mem) simp

lemma quote_char_safe: "set (quote_char c) \<subseteq> set always_safe \<union> {CHR ''+'', CHR ''%''}"
proof -
  have d: "of_char c div 16 < (16::nat)" and m: "of_char c mod 16 < (16::nat)"
    using nat_of_char_less_256[of c] by arith+
  have s: "set ''0123456789ABCDEF'' \<subseteq> set always_safe"
    by (simp add: always_safe_def digits_def ascii_uppercase_def)
  have "hex_digit (of_char c div 16) \<in> set always_safe"
    using hex_digit_safe[OF d] s by (rule subsetD[rotated])
  moreover have "hex_digit (of_char c mod 16) \<in> set always_safe"
    using hex_digit_safe[OF m] s by (rule subsetD[rotated])
  ultimately show ?thesis
    by (simp add: quote_char_def)
qed

lemma quote_plus_safe: "set (quote_plus s) \<subseteq> set always_safe \<union> {CHR ''+'', CHR ''%''}"
  using quote_char_safe by (fastforce simp: quote_plus_def)

text \<open>
  Claim C9. For a phone that has only digits, \<^verbatim>\<open>tel_link\<close> is \<^verbatim>\<open>tel:\<close> followed by the
  phone as it is and \<^verbatim>\<open>whatsapp_link\<close> is the \<^verbatim>\<open>wa.me\<close> address of the phone as it is
  with the URL-encoded message; \<^verbatim>\<open>mailto_link\<close> is \<^verbatim>\<open>mailto:\<close> followed by the email as
  it is with the URL-encoded subject and body. An URL-encoded text has only unreserved
  characters, \<^verbatim>\<open>+\<close> and \<^verbatim>\<open>%\<close>.
\<close>

theorem contact_links:
  "set phone \<subseteq> set digits \<Longrightarrow>
     tel_link nd phone = ''tel:'' @ phone \<and>
     whatsapp_link nd phone msg = ''https://wa.me/'' @ phone @ ''?text='' @ quote_plus msg \<and>
     mailto_link email subject body =
       ''mailto:'' @ email @ ''?subject='' @ quote_plus subject @ ''&body='' @ quote_plus body \<and>
     set (quote_plus msg) \<subseteq> set always_safe \<union> {CHR ''+'', CHR ''%''}"
  by (simp only: tel_link_def whatsapp_link_def mailto_link_def sub_non_digit_id Let_def
      quote_plus_safe simp_thms)

theorem contact_links_witness:
  "set ''9876543210'' \<subseteq> set digits \<and>
   tel_link arabic_indic ''9876543210'' = ''tel:9876543210'' \<and>
   whatsapp_link arabic_indic ''9876543210'' ''Hello A&B, hi'' =
     ''https://wa.me/9876543210?text=Hello+A%26B%2C+hi'' \<and>
   mailto_link ''a@b.org'' ''Food Donation'' ''Hello A&B, hi'' =
     ''mailto:a@b.org?subject=Food+Donation&body=Hello+A%26B%2C+hi''"
proof -
  have h: "set ''9876543210'' \<subseteq> set digits"
    by (simp add: digits_def)
  have q1: "quote_plus ''Hello A&B, hi'' = ''Hello+A%26B%2C+hi''"
    by code_simp
  have q2: "quote_plus ''Food Donation'' = ''Food+Donation''"
    by code_simp
  note c = contact_links [OF h, of arabic_indic "''Hello A&B, hi''" "''a@b.org''"
      "''Food Donation''" "''Hello A&B, hi''"]
  from c have t: "tel_link arabic_indic ''9876543210'' = ''tel:'' @ ''9876543210''"
    by (rule conjunct1)
  from c have w: "whatsapp_link arabic_indic ''9876543210'' ''Hello A&B, hi'' =
      ''https://wa.me/'' @ ''9876543210'' @ ''?text='' @ quote_plus ''Hello A&B, hi''"
    by (elim conjE)
  from c have m: "mailto_link ''a@b.org'' ''Food Donation'' ''Hello A&B, hi'' =
      ''mailto:'' @ ''a@b.org'' @ ''?subject='' @ quote_plus ''Food Donation'' @ ''&body='' @
      quote_plus ''Hello A&B, hi''"
    by (elim conjE)
  from h t w m show ?thesis
    by (simp add: q1 q2)
qed

section \<open>Column resolution\<close>

lemma foldl_upd_lookup:
  "foldl (\<lambda>m c. m(f c \<mapsto> c)) m0 cs k =
     (if filter (\<lambda>c. f c = k) cs = [] then m0 k else Some (last (filter (\<lambda>c. f c = k) cs)))"
  by (induction cs arbitrary: m0) auto

lemma nmap_of_lookup:
  "nmap_of df_cols k =
     (if filter (\<lambda>c. normalize c = k) df_cols = [] then None
      else Some (last (filter (\<lambda>c. normalize c = k) df_cols)))"
  by (simp add: nmap_of_def foldl_upd_lookup)

lemma nmap_of_None: "nmap_of df_cols k = None \<longleftrightarrow> \<not> list_ex (\<lambda>c. normalize c = k) df_cols"
  by (auto simp: nmap_of_lookup filter_empty_conv list_ex_iff)

lemma exact_pass_find:
  "exact_pass nmap cands =
     (case List.find (\<lambda>a. nmap (normalize a) \<noteq> None) cands of
        None \<Rightarrow> None | Some a \<Rightarrow> nmap (normalize a))"
  by (induction cands) (auto split: option.splits)

lemma fuzzy_pass_find:
  "fuzzy_pass df_cols cands =
     List.find (\<lambda>col. list_ex (\<lambda>alias. sublist (normalize alias) (normalize col)) cands) df_cols"
  by (induction df_cols) (auto simp: py_in_sublist)

lemma try_match_exact:
  assumes "List.find (has_exact df_cols) cands = Some a"
  shows "try_match_column df_cols cands =
           Some (last (filter (\<lambda>c. normalize c = normalize a) df_cols))"
proof -
  have eq: "(\<lambda>a. nmap_of df_cols (normalize a) \<noteq> None) = has_exact df_cols"
    by (rule ext) (simp add: nmap_of_None has_exact_def)
  from assms have "has_exact df_cols a"
    by (auto simp: find_Some_iff)
  then have "filter (\<lambda>c. normalize c = normalize a) df_cols \<noteq> []"
    by (auto simp: has_exact_def filter_empty_conv list_ex_iff)
  then have "nmap_of df_cols (normalize a) =
      Some (last (filter (\<lambda>c. normalize c = normalize a) df_cols))"
    by (simp add: nmap_of_lookup)
  then show ?thesis
    unfolding try_match_column_def exact_pass_find eq assms by simp
qed

lemma try_match_fuzzy:
  assumes "List.find (has_exact df_cols) cands = None"
  shows "try_match_column df_cols cands =
           List.find (\<lambda>col. list_ex (\<lambda>alias. sublist (normalize alias) (normalize col)) cands) df_cols"
proof -
  have eq: "(\<lambda>a. nmap_of df_cols (normalize a) \<noteq> None) = has_exact df_cols"
    by (rule ext) (simp add: nmap_of_None has_exact_def)
  show ?thesis
    unfolding try_match_column_def exact_pass_find eq assms by (simp add: fuzzy_pass_find)
qed

lemma try_match_in_cols:
  assumes "try_match_column df_cols cands = Some c"
  shows "c \<in> set df_cols"
proof (cases "List.find (has_exact df_cols) cands")
  case None
  with assms try_match_fuzzy[OF None] show ?thesis
    by (auto simp: find_Some_iff)
next
  case (Some a)
  then have "has_exact df_cols a"
    by (auto simp: find_Some_iff)
  then have ne: "filter (\<lambda>c. normalize c = normalize a) df_cols \<noteq> []"
    by (auto simp: has_exact_def filter_empty_conv list_ex_iff)
  from assms try_match_exact[OF Some]
  have "c = last (filter (\<lambda>c. normalize c = normalize a) df_cols)" by simp
  with last_in_set[OF ne] show ?thesis by auto
qed

lemma try_match_None:
  "try_match_column df_cols cands = None \<longleftrightarrow>
     \<not> list_ex (\<lambda>col. list_ex (\<lambda>alias. sublist (normalize alias) (normalize col)) cands) df_cols"
proof (cases "List.find (has_exact df_cols) cands")
  case None
  show ?thesis
    unfolding try_match_fuzzy[OF None] find_None_iff by (auto simp: list_ex_iff)
next
  case (Some a)
  then have a: "has_exact df_cols a" "a \<in> set cands"
    by (auto simp: find_Some_iff)
  then obtain c where "c \<in> set df_cols" "normalize c = normalize a"
    by (auto simp: has_exact_def list_ex_iff)
  with a have "list_ex (\<lambda>col. list_ex (\<lambda>alias. sublist (normalize alias) (normalize col)) cands) df_cols"
    unfolding list_ex_iff by (metis sublist_order.order_refl)
  then show ?thesis
    by (simp add: try_match_exact[OF Some])
qed

lemma try_match_unique:
  assumes c: "c \<in> set df_cols" and a: "a \<in> set cands" and ca: "normalize c = normalize a"
    and uniq: "\<forall>c'\<in>set df_cols. list_ex (\<lambda>a'. normalize c' = normalize a') cands \<longrightarrow> c' = c"
  shows "try_match_column df_cols cands = Some c"
proof -
  from c a ca have "has_exact df_cols a"
    by (auto simp: has_exact_def list_ex_iff)
  with a obtain a' where f: "List.find (has_exact df_cols) cands = Some a'"
    by (cases "List.find (has_exact df_cols) cands") (auto simp: find_None_iff)
  then have a': "has_exact df_cols a'" "a' \<in> set cands"
    by (auto simp: find_Some_iff)
  let ?xs = "filter (\<lambda>x. normalize x = normalize a') df_cols"
  from a'(1) have ne: "?xs \<noteq> []"
    by (auto simp: has_exact_def filter_empty_conv list_ex_iff)
  from last_in_set[OF ne] have "last ?xs \<in> set df_cols" "normalize (last ?xs) = normalize a'"
    by auto
  with a'(2) uniq have "last ?xs = c"
    by (auto simp: list_ex_iff)
  with try_match_exact[OF f] show ?thesis by simp
qed

text \<open>
  Claim C5, as the code has it. Column names and aliases are canonicalized by lower-casing
  and keeping the characters of \<^verbatim>\<open>[a-z0-9]\<close>. A result is one of the raw columns. When
  some alias equals the canonical form of a raw column, the result is a raw column whose
  canonical form is that of the first such alias in priority order; when none does, the
  result is the first raw column whose canonical form contains the canonical form of an
  alias; the result is \<^verbatim>\<open>None\<close> exactly when no raw column contains an alias. A raw
  column that is a variant of an alias is returned when it is the only raw column whose
  canonical form equals that of an alias.
\<close>

theorem try_match_column_resolves:
  "normalize s = filter (\<lambda>x. x \<in> set (ascii_lowercase @ digits)) (map lower_char s) \<and>
   (try_match_column df_cols cands = Some r \<longrightarrow> r \<in> set df_cols) \<and>
   (List.find (has_exact df_cols) cands = Some a \<longrightarrow>
      (\<exists>r'. try_match_column df_cols cands = Some r' \<and> r' \<in> set df_cols \<and>
            normalize r' = normalize a)) \<and>
   (List.find (has_exact df_cols) cands = None \<longrightarrow>
      try_match_column df_cols cands =
        List.find (\<lambda>col. list_ex (\<lambda>alias. sublist (normalize alias) (normalize col)) cands)
          df_cols) \<and>
   (try_match_column df_cols cands = None \<longleftrightarrow>
      \<not> list_ex (\<lambda>col. list_ex (\<lambda>alias. sublist (normalize alias) (normalize col)) cands)
          df_cols) \<and>
   (c \<in> set df_cols \<and> b \<in> set cands \<and> normalize c = normalize b \<and>
    (\<forall>c'\<in>set df_cols. list_ex (\<lambda>a'. normalize c' = normalize a') cands \<longrightarrow> c' = c)
      \<longrightarrow> try_match_column df_cols cands = Some c)"
proof (intro conjI impI)
  show "normalize s = filter (\<lambda>x. x \<in> set (ascii_lowercase @ digits)) (map lower_char s)"
    by (simp add: normalize_no_strip sub_non_alnum_def py_lower_def)
next
  assume "try_match_column df_cols cands = Some r"
  then show "r \<in> set df_cols" by (rule try_match_in_cols)
next
  assume f: "List.find (has_exact df_cols) cands = Some a"
  then have "has_exact df_cols a" by (auto simp: find_Some_iff)
  then have ne: "filter (\<lambda>x. normalize x = normalize a) df_cols \<noteq> []"
    by (auto simp: has_exact_def filter_empty_conv list_ex_iff)
  from last_in_set[OF ne] try_match_exact[OF f]
  show "\<exists>r'. try_match_column df_cols cands = Some r' \<and> r' \<in> set df_cols \<and>
            normalize r' = normalize a"
    by auto
next
  assume "List.find (has_exact df_cols) cands = None"
  then show "try_match_column df_cols cands =
        List.find (\<lambda>col. list_ex (\<lambda>alias. sublist (normalize alias) (normalize col)) cands)
          df_cols"
    by (rule try_match_fuzzy)
next
  show "try_match_column df_cols cands = None \<longleftrightarrow>
      \<not> list_ex (\<lambda>col. list_ex (\<lambda>alias. sublist (normalize alias) (normalize col)) cands)
          df_cols"
    by (rule try_match_None)
next
  assume "c \<in> set df_cols \<and> b \<in> set cands \<and> normalize c = normalize b \<and>
    (\<forall>c'\<in>set df_cols. list_ex (\<lambda>a'. normalize c' = normalize a') cands \<longrightarrow> c' = c)"
  then show "try_match_column df_cols cands = Some c"
    using try_match_unique by blast
qed

theorem try_match_column_resolves_witness:
  "try_match_column [''Sr No'', ''Org'', ''City'', ''Contact No'']
     [''id'', ''record_id'', ''sr_no'', ''sno'', ''index''] = Some ''Sr No'' \<and>
   try_match_column [''Sr No'', ''Org'', ''City'', ''Contact No'']
     [''phone'', ''mobile'', ''contact''] = Some ''Contact No'' \<and>
   try_match_column [''Sr No'', ''Org'', ''City'', ''Contact No'']
     [''email'', ''mail'', ''email_id''] = None"
proof -
  let ?cols = "[''Sr No'', ''Org'', ''City'', ''Contact No'']"
  let ?ids = "[''id'', ''record_id'', ''sr_no'', ''sno'', ''index'']"
  let ?phones = "[''phone'', ''mobile'', ''contact'']"
  let ?mails = "[''email'', ''mail'', ''email_id'']"
  have h1: "''Sr No'' \<in> set ?cols \<and> ''sr_no'' \<in> set ?ids \<and>
      normalize ''Sr No'' = normalize ''sr_no'' \<and>
      (\<forall>c'\<in>set ?cols. list_ex (\<lambda>a'. normalize c' = normalize a') ?ids \<longrightarrow> c' = ''Sr No'')"
    by code_simp
  have h2: "List.find (has_exact ?cols) ?phones = None"
    by code_simp
  have h3: "\<not> list_ex (\<lambda>col. list_ex (\<lambda>alias. sublist (normalize alias) (normalize col)) ?mails)
      ?cols"
    by code_simp
  have e: "List.find (\<lambda>col. list_ex (\<lambda>alias. sublist (normalize alias) (normalize col)) ?phones)
      ?cols = Some ''Contact No''"
    by code_simp
  have r1: "try_match_column ?cols ?ids = Some ''Sr No''"
    using try_match_column_resolves [of "[]" ?cols ?ids "[]" "[]" "''Sr No''" "''sr_no''"] h1
    by blast
  have r2: "try_match_column ?cols ?phones = Some ''Contact No''"
    using try_match_column_resolves [of "[]" ?cols ?phones "[]" "[]" "[]" "[]"] h2 e
    by simp
  have r3: "try_match_column ?cols ?mails = None"
    using try_match_column_resolves [of "[]" ?cols ?mails "[]" "[]" "[]" "[]"] h3
    by blast
  from r1 r2 r3 show ?thesis by blast
qed

theorem variant_not_returned:
  "normalize ''Mobile'' = normalize ''mobile'' \<and>
   try_match_column [''Mobile'', ''Phone'']
     [''phone'', ''mobile'', ''contact'', ''contact_number'', ''phone_no'', ''phone_number'']
   = Some ''Phone''"
  by code_simp

text \<open>
  Claim C10, as the code has it. When the first alias in priority order whose canonical
  form is that of some raw column is \<open>a\<close>, the exact pass returns the last raw column,
  in column order, with the canonical form of \<open>a\<close>; when no alias matches exactly, the
  fallback returns the first raw column, in column order, that contains an alias.
\<close>

theorem try_match_column_tie_breaking:
  "(List.find (has_exact df_cols) cands = Some a \<longrightarrow>
      try_match_column df_cols cands =
        Some (last (filter (\<lambda>c. normalize c = normalize a) df_cols))) \<and>
   (List.find (has_exact df_cols) cands = None \<longrightarrow>
      try_match_column df_cols cands =
        List.find (\<lambda>col. list_ex (\<lambda>alias. sublist (normalize alias) (normalize col)) cands)
          df_cols)"
  using try_match_exact try_match_fuzzy by blast

theorem try_match_column_tie_breaking_witness:
  "try_match_column [''Phone No'', ''phone_no'', ''City''] [''phone'', ''mobile'', ''phone_no'']
     = Some ''phone_no'' \<and>
   try_match_column [''Contact 1'', ''Contact 2'', ''City''] [''phone'', ''mobile'', ''contact'']
     = Some ''Contact 1''"
proof -
  let ?c1 = "[''Phone No'', ''phone_no'', ''City'']"
  let ?a1 = "[''phone'', ''mobile'', ''phone_no'']"
  let ?c2 = "[''Contact 1'', ''Contact 2'', ''City'']"
  let ?a2 = "[''phone'', ''mobile'', ''contact'']"
  have h1: "List.find (has_exact ?c1) ?a1 = Some ''phone_no''"
    by code_simp
  have h2: "List.find (has_exact ?c2) ?a2 = None"
    by code_simp
  have e1: "last (filter (\<lambda>c. normalize c = normalize ''phone_no'') ?c1) = ''phone_no''"
    by code_simp
  have e2: "List.find (\<lambda>col. list_ex (\<lambda>alias. sublist (normalize alias) (normalize col)) ?a2)
      ?c2 = Some ''Contact 1''"
    by code_simp
  have r1: "try_match_column ?c1 ?a1 = Some ''phone_no''"
    using try_match_column_tie_breaking [of ?c1 ?a1 "''phone_no''"] h1 e1 by simp
  have r2: "try_match_column ?c2 ?a2 = Some ''Contact 1''"
    using try_match_column_tie_breaking [of ?c2 ?a2 "[]"] h2 e2 by simp
  from r1 r2 show ?thesis by blast
qed

theorem last_same_token_not_returned:
  "normalize ''Mobile'' = ''mobile'' \<and> normalize ''mobile'' = ''mobile'' \<and>
   try_match_column [''Mobile'', ''mobile'', ''Phone'']
     [''phone'', ''mobile'', ''contact'', ''contact_number'', ''phone_no'', ''phone_number'']
   = Some ''Phone''"
  by code_simp
section \<open>Projection into the schema\<close>

lemma project_cols_snoc:
  "project_cols dfc m (ts @ [t]) = project_step dfc m (project_cols dfc m ts) t"
  by (simp add: project_cols_def)

lemma project_step_resolved:
  "project_step dfc m u t =
     (case resolved dfc m t of
        None \<Rightarrow> setitem_scalar u t (Str '''')
      | Some vs \<Rightarrow> setitem_series u t vs)"
  by (simp add: project_step_def resolved_def split: option.splits)

lemma resolved_length: "rect dfc \<Longrightarrow> resolved dfc m t = Some vs \<Longrightarrow> length vs = nrows dfc"
  by (auto simp: resolved_def split: option.splits dest: rect_getitem)

lemma before_snoc_in: "t \<in> set ts \<Longrightarrow> before t (ts @ [x]) = before t ts"
  by (simp add: before_def takeWhile_append1)

lemma before_snoc_new: "t \<notin> set ts \<Longrightarrow> before t (ts @ [t]) = ts"
proof -
  assume "t \<notin> set ts"
  then have "takeWhile (\<lambda>x. x \<noteq> t) (ts @ [t]) = ts @ takeWhile (\<lambda>x. x \<noteq> t) [t]"
    by (intro takeWhile_append2) auto
  then show ?thesis
    by (simp add: before_def)
qed

lemma before_subset: "set (before t ts) \<subseteq> set ts"
  by (auto simp: before_def dest: set_takeWhileD)

lemma any_resolved_snoc:
  "any_resolved dfc m (ts @ [t]) = (any_resolved dfc m ts \<or> resolved dfc m t \<noteq> None)"
  by (auto simp: any_resolved_def list_ex_iff)

lemma any_resolved_before: "any_resolved dfc m (before t ts) \<Longrightarrow> any_resolved dfc m ts"
  using before_subset by (fastforce simp: any_resolved_def list_ex_iff)

lemma not_any_resolved: "\<not> any_resolved dfc m ts \<Longrightarrow> t \<in> set ts \<Longrightarrow> resolved dfc m t = None"
  by (auto simp: any_resolved_def list_ex_iff)

lemma project_cols_inv:
  assumes r: "rect dfc"
  shows "distinct ts \<Longrightarrow>
     df_columns (project_cols dfc m ts) = ts \<and>
     nrows (project_cols dfc m ts) = (if any_resolved dfc m ts then nrows dfc else 0) \<and>
     (\<forall>t\<in>set ts. getitem (project_cols dfc m ts) t = Some (expected_col dfc m ts t))"
proof (induction ts rule: rev_induct)
  case Nil
  show ?case
    by (simp add: project_cols_def empty_frame_def df_columns_def any_resolved_def)
next
  case (snoc x ts)
  let ?u = "project_cols dfc m ts"
  from snoc.prems have d: "distinct ts" and x: "x \<notin> set ts" by simp_all
  from snoc.IH[OF d] have
    c: "df_columns ?u = ts" and
    n: "nrows ?u = (if any_resolved dfc m ts then nrows dfc else 0)" and
    g: "\<And>t. t \<in> set ts \<Longrightarrow> getitem ?u t = Some (expected_col dfc m ts t)"
    by simp_all
  show ?case
  proof (cases "resolved dfc m x")
    case None
    have step: "project_cols dfc m (ts @ [x]) = setitem_scalar ?u x (Str '''')"
      by (simp add: project_cols_snoc project_step_resolved None)
    have a: "any_resolved dfc m (ts @ [x]) = any_resolved dfc m ts"
      by (simp add: any_resolved_snoc None)
    have 1: "df_columns (project_cols dfc m (ts @ [x])) = ts @ [x]"
      using x by (simp add: step df_columns_setitem_scalar c)
    have 2: "nrows (project_cols dfc m (ts @ [x])) =
        (if any_resolved dfc m (ts @ [x]) then nrows dfc else 0)"
      by (simp add: step nrows_setitem_scalar n a)
    have 3: "getitem (project_cols dfc m (ts @ [x])) t = Some (expected_col dfc m (ts @ [x]) t)"
      if t: "t \<in> set (ts @ [x])" for t
    proof (cases "t = x")
      case True
      then show ?thesis
        using x by (simp add: step getitem_setitem_scalar n expected_col_def None a
            before_snoc_new)
    next
      case False
      with t have tin: "t \<in> set ts" by simp
      have "expected_col dfc m (ts @ [x]) t = expected_col dfc m ts t"
        by (simp add: expected_col_def a before_snoc_in[OF tin])
      with False g[OF tin] show ?thesis
        by (simp add: step getitem_setitem_scalar)
    qed
    from 1 2 3 show ?thesis by blast
  next
    case (Some vs)
    have len: "length vs = nrows dfc"
      using r Some by (rule resolved_length)
    have step: "project_cols dfc m (ts @ [x]) = setitem_series ?u x vs"
      by (simp add: project_cols_snoc project_step_resolved Some)
    have a: "any_resolved dfc m (ts @ [x])"
      by (simp add: any_resolved_snoc Some)
    have gr: "grows ?u vs \<longleftrightarrow> \<not> any_resolved dfc m ts \<and> 0 < nrows dfc"
      by (auto simp: grows_def n len)
    have nn: "(if grows ?u vs then length vs else nrows ?u) = nrows dfc"
      by (auto simp: gr n len)
    have 1: "df_columns (project_cols dfc m (ts @ [x])) = ts @ [x]"
      using x by (simp add: step df_columns_setitem_series c)
    have 2: "nrows (project_cols dfc m (ts @ [x])) =
        (if any_resolved dfc m (ts @ [x]) then nrows dfc else 0)"
      by (simp add: step nrows_setitem_series nn a)
    have 3: "getitem (project_cols dfc m (ts @ [x])) t = Some (expected_col dfc m (ts @ [x]) t)"
      if t: "t \<in> set (ts @ [x])" for t
    proof (cases "t = x")
      case True
      then show ?thesis
        by (simp add: step getitem_setitem_series nn expected_col_def Some reindex_same len)
    next
      case False
      with t have tin: "t \<in> set ts" by simp
      show ?thesis
      proof (cases "grows ?u vs")
        case True
        with gr have na: "\<not> any_resolved dfc m ts" and pos: "0 < nrows dfc" by simp_all
        from na tin have rt: "resolved dfc m t = None" by (rule not_any_resolved)
        from na have nb: "\<not> any_resolved dfc m (before t ts)"
          using any_resolved_before by blast
        have old: "expected_col dfc m ts t = []"
          by (simp add: expected_col_def rt na)
        have new: "expected_col dfc m (ts @ [x]) t = replicate (nrows dfc) NaN"
          by (simp add: expected_col_def rt a before_snoc_in[OF tin] nb)
        from False True g[OF tin] show ?thesis
          by (simp add: step getitem_setitem_series old new reindex_Nil len)
      next
        case ng: False
        have same: "expected_col dfc m (ts @ [x]) t = expected_col dfc m ts t"
        proof (cases "resolved dfc m t")
          case None
          from ng gr have "any_resolved dfc m ts \<or> nrows dfc = 0" by auto
          then show ?thesis
            by (auto simp: expected_col_def None a before_snoc_in[OF tin])
        next
          case (Some ws)
          then show ?thesis by (simp add: expected_col_def)
        qed
        from False ng g[OF tin] show ?thesis
          by (simp add: step getitem_setitem_series same)
      qed
    qed
    from 1 2 3 show ?thesis by blast
  qed
qed

lemma distinct_DEFAULT_COLUMNS: "distinct DEFAULT_COLUMNS"
  by (simp add: DEFAULT_COLUMNS_def)

lemma getitem_all_rect:
  assumes "\<And>c. c \<in> set (df_columns u) \<Longrightarrow> \<exists>vs. getitem u c = Some vs \<and> length vs = nrows u"
    and "distinct (df_columns u)"
  shows "rect u"
proof -
  have "length vs = nrows u" if "(c, vs) \<in> set (cols u)" for c vs
  proof -
    from that assms(2) have "map_of (cols u) c = Some vs"
      by (simp add: df_columns_def)
    moreover from that have "c \<in> set (df_columns u)"
      by (force simp: df_columns_def)
    ultimately show ?thesis
      using assms(1)[of c] by (simp add: getitem_def)
  qed
  then show ?thesis
    by (auto simp: rect_def list_all_iff)
qed

lemma length_expected_col:
  assumes "rect dfc" "t \<in> set ts"
  shows "length (expected_col dfc m ts t) = (if any_resolved dfc m ts then nrows dfc else 0)"
proof (cases "resolved dfc m t")
  case None
  then show ?thesis by (simp add: expected_col_def)
next
  case (Some vs)
  with assms(2) have "any_resolved dfc m ts"
    by (auto simp: any_resolved_def list_ex_iff)
  with Some resolved_length[OF assms(1) Some] show ?thesis
    by (simp add: expected_col_def)
qed

lemma project_inv:
  assumes "rect dfc"
  shows "df_columns (project dfc m) = DEFAULT_COLUMNS"
    and "nrows (project dfc m) = (if any_resolved dfc m DEFAULT_COLUMNS then nrows dfc else 0)"
    and "t \<in> set DEFAULT_COLUMNS \<Longrightarrow>
           getitem (project dfc m) t = Some (expected_col dfc m DEFAULT_COLUMNS t)"
  using project_cols_inv[OF assms distinct_DEFAULT_COLUMNS, where m = m]
  by (simp_all add: project_def)

lemma wf_project:
  assumes "rect dfc"
  shows "wf_df (project dfc m)"
proof -
  have "rect (project dfc m)"
  proof (rule getitem_all_rect)
    fix c assume "c \<in> set (df_columns (project dfc m))"
    then have c: "c \<in> set DEFAULT_COLUMNS"
      by (simp add: project_inv(1)[OF assms])
    show "\<exists>vs. getitem (project dfc m) c = Some vs \<and> length vs = nrows (project dfc m)"
      by (simp add: project_inv(3)[OF assms c] project_inv(2)[OF assms]
          length_expected_col[OF assms c])
  next
    show "distinct (df_columns (project dfc m))"
      by (simp add: project_inv(1)[OF assms] distinct_DEFAULT_COLUMNS)
  qed
  then show ?thesis
    by (simp add: wf_df_rect project_inv(1)[OF assms] distinct_DEFAULT_COLUMNS)
qed

text \<open>
  Claim C4, as the code has it. For every well-formed raw table and every column mapping,
  the projection has exactly the ten default columns in their fixed order and is
  rectangular; it has one row per raw row when some field is mapped to a raw column (as
  every mapping that passes the check of the mandatory fields does) and no row otherwise.
  A field mapped to a raw column has the values of that column as they are. A field that
  is not mapped holds the empty string in every row when a field before it in the fixed
  order is mapped, and the missing value in every row when none is.
\<close>

theorem project_shape:
  "wf_df dfc \<Longrightarrow>
     df_columns (project dfc m) = DEFAULT_COLUMNS \<and>
     wf_df (project dfc m) \<and>
     nrows (project dfc m) = (if any_resolved dfc m DEFAULT_COLUMNS then nrows dfc else 0) \<and>
     (\<forall>t\<in>set DEFAULT_COLUMNS. \<forall>vs. resolved dfc m t = Some vs \<longrightarrow>
         getitem (project dfc m) t = Some vs) \<and>
     (\<forall>t\<in>set DEFAULT_COLUMNS.
         resolved dfc m t = None \<and> any_resolved dfc m (before t DEFAULT_COLUMNS) \<longrightarrow>
         getitem (project dfc m) t = Some (replicate (nrows dfc) (Str ''''))) \<and>
     (\<forall>t\<in>set DEFAULT_COLUMNS.
         resolved dfc m t = None \<and> \<not> any_resolved dfc m (before t DEFAULT_COLUMNS) \<longrightarrow>
         getitem (project dfc m) t = Some (replicate (nrows (project dfc m)) NaN))"
proof -
  assume "wf_df dfc"
  then have r: "rect dfc" by (simp add: wf_df_rect)
  have a: "any_resolved dfc m (before t DEFAULT_COLUMNS) \<Longrightarrow> any_resolved dfc m DEFAULT_COLUMNS"
    for t by (rule any_resolved_before)
  show ?thesis
    using project_inv[OF r, where m = m] wf_project[OF r, where m = m] a
    by (auto simp: expected_col_def)
qed

theorem project_shape_witness:
  "wf_df no_id_table \<and>
   df_columns (project no_id_table no_id_mapping) = DEFAULT_COLUMNS \<and>
   nrows (project no_id_table no_id_mapping) = 2 \<and>
   getitem (project no_id_table no_id_mapping) ''city'' =
     Some [Str ''Pune'', Str ''Mumbai''] \<and>
   getitem (project no_id_table no_id_mapping) ''email'' =
     Some [Str '''', Str ''''] \<and>
   getitem (project no_id_table no_id_mapping) ''id'' = Some [NaN, NaN]"
proof -
  let ?m = "no_id_mapping"
  have w: "wf_df no_id_table"
    by code_simp
  have h0: "any_resolved no_id_table ?m DEFAULT_COLUMNS" "nrows no_id_table = 2"
    by code_simp+
  have h1: "''city'' \<in> set DEFAULT_COLUMNS"
    "resolved no_id_table ?m ''city'' = Some [Str ''Pune'', Str ''Mumbai'']"
    by code_simp+
  have h2: "''email'' \<in> set DEFAULT_COLUMNS"
    "resolved no_id_table ?m ''email'' = None \<and>
       any_resolved no_id_table ?m (before ''email'' DEFAULT_COLUMNS)"
    by code_simp+
  have h3: "''id'' \<in> set DEFAULT_COLUMNS"
    "resolved no_id_table ?m ''id'' = None \<and>
       \<not> any_resolved no_id_table ?m (before ''id'' DEFAULT_COLUMNS)"
    by code_simp+
  note p = project_shape [OF w, where m = ?m]
  from p have c: "df_columns (project no_id_table ?m) = DEFAULT_COLUMNS"
    by blast
  from p h0 have n: "nrows (project no_id_table ?m) = 2"
    by simp
  from p h1 have g1: "getitem (project no_id_table ?m) ''city'' =
      Some [Str ''Pune'', Str ''Mumbai'']"
    by blast
  from p h2 have "getitem (project no_id_table ?m) ''email'' =
      Some (replicate (nrows no_id_table) (Str ''''))"
    by blast
  with h0 have g2: "getitem (project no_id_table ?m) ''email'' = Some [Str '''', Str '''']"
    by (simp add: numeral_2_eq_2)
  from p h3 have "getitem (project no_id_table ?m) ''id'' =
      Some (replicate (nrows (project no_id_table ?m)) NaN)"
    by blast
  with n have g3: "getitem (project no_id_table ?m) ''id'' = Some [NaN, NaN]"
    by (simp add: numeral_2_eq_2)
  from w c n g1 g2 g3 show ?thesis by blast
qed

theorem unmapped_id_not_blank:
  "build_mapping no_id_table = no_id_mapping \<and>
   dict_get no_id_mapping ''id'' = None \<and>
   getitem (project no_id_table no_id_mapping) ''id'' = Some [NaN, NaN]"
  by code_simp

section \<open>The pipeline\<close>

lemma map_of_dict_set: "map_of (dict_set k v m) = (map_of m)(k \<mapsto> v)"
  by (induction m) (auto simp: fun_eq_iff)

lemma dict_get_dict_set: "dict_get (dict_set k v m) k' = (if k' = k then v else dict_get m k')"
  by (simp add: dict_get_def map_of_dict_set)

lemma dict_get_ask_missing:
  "dict_get (ask_missing selectbox m ks) k = (if k \<in> set ks then selectbox k else dict_get m k)"
proof (induction ks arbitrary: m)
  case Nil
  show ?case by (simp add: ask_missing_def)
next
  case (Cons x ks)
  have "ask_missing selectbox m (x # ks) = ask_missing selectbox (dict_set x (selectbox x) m) ks"
    by (simp add: ask_missing_def)
  then show ?case
    by (simp add: Cons.IH dict_get_dict_set)
qed

lemma missing_of_iff:
  assumes "distinct (map fst m)" "k \<in> fst ` set m"
  shows "k \<in> set (missing_of m) \<longleftrightarrow> k \<in> set MANDATORY \<and> dict_get m k = None"
proof -
  from assms(2) obtain v where v: "(k, v) \<in> set m" by auto
  with assms(1) have mo: "map_of m k = Some v" by simp
  have "(k, None) \<in> set m \<longleftrightarrow> v = None"
  proof
    assume "(k, None) \<in> set m"
    with assms(1) have "map_of m k = Some None" by simp
    with mo show "v = None" by simp
  next
    assume "v = None"
    with v show "(k, None) \<in> set m" by simp
  qed
  then show ?thesis
    by (auto simp: missing_of_def dict_get_def mo image_iff)
qed

lemma missing_of_mandatory: "k \<in> set (missing_of m) \<Longrightarrow> k \<in> set MANDATORY"
  by (auto simp: missing_of_def)

lemma keys_build_mapping: "map fst (build_mapping dfc) = DEFAULT_COLUMNS"
  by (simp add: build_mapping_def REQUIRED_COLUMNS_def DEFAULT_COLUMNS_def)

lemma mandatory_default: "k \<in> set MANDATORY \<Longrightarrow> k \<in> set DEFAULT_COLUMNS"
  by (auto simp: MANDATORY_def DEFAULT_COLUMNS_def)

lemma missing_build_mapping:
  "k \<in> set (missing_of (build_mapping dfc)) \<longleftrightarrow>
     k \<in> set MANDATORY \<and> dict_get (build_mapping dfc) k = None"
proof (cases "k \<in> set MANDATORY")
  case True
  then have "k \<in> set (map fst (build_mapping dfc))"
    by (simp only: keys_build_mapping mandatory_default)
  then have "k \<in> fst ` set (build_mapping dfc)" by simp
  moreover have "distinct (map fst (build_mapping dfc))"
    by (simp only: keys_build_mapping distinct_DEFAULT_COLUMNS)
  ultimately show ?thesis by (rule missing_of_iff[rotated])
next
  case False
  then show ?thesis using missing_of_mandatory by blast
qed

lemma stop_condition:
  "(missing_of (build_mapping dfc) \<noteq> [] \<and>
    list_ex (\<lambda>k. dict_get (final_mapping selectbox dfc) k = None) (missing_of (build_mapping dfc)))
   = unresolved selectbox dfc"
proof -
  have "list_ex (\<lambda>k. dict_get (final_mapping selectbox dfc) k = None)
          (missing_of (build_mapping dfc)) =
        (\<exists>k\<in>set (missing_of (build_mapping dfc)). selectbox k = None)"
    by (simp add: list_ex_iff final_mapping_def dict_get_ask_missing)
  also have "\<dots> = unresolved selectbox dfc"
    by (auto simp: unresolved_def list_ex_iff missing_build_mapping)
  finally show ?thesis by auto
qed

lemma length_factorize_from: "length (factorize_from uniques vs) = length vs"
  by (induction vs arbitrary: uniques) (auto split: option.splits)

lemma length_factorize: "length (factorize vs) = length vs"
  by (simp add: factorize_def length_factorize_from)

lemma coerce_id_new_ids:
  "coerce_id u = (case getitem u ''id'' of None \<Rightarrow> Inl KeyError
                  | Some ids \<Rightarrow> Inr (put_col ''id'' (new_ids u ids) u))"
  by (simp add: coerce_id_def new_ids_def split: option.splits)

lemma length_new_ids: "length ids = nrows u \<Longrightarrow> length (new_ids u ids) = nrows u"
  by (simp add: new_ids_def length_factorize)

lemma new_ids_Num: "v \<in> set (new_ids u ids) \<Longrightarrow> \<exists>i. v = Num i"
  by (auto simp: new_ids_def split: if_splits)

lemma stage_ok:
  assumes "wf_df u" "getitem u c = Some xs" "length ys = length xs"
  shows "wf_df (put_col c ys u) \<and> df_columns (put_col c ys u) = df_columns u \<and>
         nrows (put_col c ys u) = nrows u"
proof -
  from assms(2) have c: "c \<in> set (df_columns u)" by (rule getitem_Some_columns)
  from assms(1,2) have "length xs = nrows u"
    by (auto simp: wf_df_rect dest: rect_getitem)
  with assms(3) have "length ys = nrows u" by simp
  with assms(1) c show ?thesis
    by (simp add: wf_put_col df_columns_put_col nrows_put_col)
qed

lemma wf_fillna: "wf_df u \<Longrightarrow> wf_df (fillna v u)"
  by (simp add: wf_df_rect rect_fillna df_columns_fillna)

lemma apply_phone:
  "apply_series (phone_lambda nd) (map (astype_str pd) ps) =
     (if phone_fails pd ps then Inl TypeError
      else Inr (map (\<lambda>v. Str (sub_non_digit nd (py_str v))) ps))"
proof (induction ps)
  case Nil
  show ?case by (simp add: phone_fails_def)
next
  case (Cons v ps)
  show ?case
  proof (cases "isna v \<and> pd = Pandas3")
    case True
    then show ?thesis
      by (simp add: astype_str_def phone_fails_def)
  next
    case False
    then have a: "astype_str pd v = Str (py_str v)"
      by (simp add: astype_str_def)
    from False have f: "phone_fails pd (v # ps) = phone_fails pd ps"
      by (auto simp: phone_fails_def)
    show ?thesis
      by (simp add: a f Cons.IH del: phone_fails_def)
  qed
qed

lemma clean_phone_cases:
  "clean_phone pd nd u =
     (case getitem u ''phone'' of
        None \<Rightarrow> Inl KeyError
      | Some ps \<Rightarrow> if phone_fails pd ps then Inl TypeError else Inr (after_phone nd u ps))"
  by (simp add: clean_phone_def apply_phone after_phone_def split: option.splits)

lemma ensure_schema_stop:
  "unresolved selectbox df \<Longrightarrow> ensure_schema pd nd selectbox df = Inl StopException"
  using stop_condition[of df selectbox]
  by (simp add: ensure_schema_def Let_def final_mapping_def)

lemma ensure_schema_chain:
  assumes "\<not> unresolved selectbox df"
    and "getitem (project df (final_mapping selectbox df)) ''id'' = Some ids"
    and "getitem (after_id (project df (final_mapping selectbox df)) ids) ''role'' = Some rs"
  shows "ensure_schema pd nd selectbox df =
           (case clean_phone pd nd
                   (after_role (after_id (project df (final_mapping selectbox df)) ids) rs) of
              Inl e \<Rightarrow> Inl e
            | Inr u3 \<Rightarrow> Inr (fillna (Str '''') u3))"
proof -
  let ?u0 = "project df (final_mapping selectbox df)"
  have 0: "\<not> (missing_of (build_mapping df) \<noteq> [] \<and>
    list_ex (\<lambda>k. dict_get (final_mapping selectbox df) k = None) (missing_of (build_mapping df)))"
    using assms(1) by (simp only: stop_condition simp_thms)
  have 1: "coerce_id ?u0 = Inr (after_id ?u0 ids)"
    by (simp add: coerce_id_new_ids assms(2) after_id_def)
  have 2: "apply_role (after_id ?u0 ids) = Inr (after_role (after_id ?u0 ids) rs)"
    by (simp add: apply_role_def assms(3) after_role_def)
  from 0 have "ensure_schema pd nd selectbox df =
      (case coerce_id ?u0 of
         Inl e \<Rightarrow> Inl e
       | Inr u1 \<Rightarrow>
           (case apply_role u1 of
              Inl e \<Rightarrow> Inl e
            | Inr u2 \<Rightarrow>
                (case clean_phone pd nd u2 of
                   Inl e \<Rightarrow> Inl e
                 | Inr u3 \<Rightarrow> Inr (fillna (Str '''') u3))))"
    unfolding ensure_schema_def Let_def final_mapping_def by (simp only: if_False)
  then show ?thesis
    by (simp add: 1 2)
qed

lemma phone_untouched:
  "getitem (after_role (after_id u ids) rs) ''phone'' = getitem u ''phone''"
  by (simp add: after_role_def after_id_def getitem_put_col)

lemma dict_get_build_mapping:
  assumes "dict_get (build_mapping dfc) k = Some c"
  shows "c \<in> set (df_columns dfc)"
proof -
  have "map_of (build_mapping dfc) k =
      map_option (try_match_column (df_columns dfc)) (map_of REQUIRED_COLUMNS k)"
    unfolding build_mapping_def by (rule map_of_map_snd)
  with assms obtain aliases where "try_match_column (df_columns dfc) aliases = Some c"
    by (auto simp: dict_get_def split: option.splits)
  then show ?thesis by (rule try_match_in_cols)
qed

lemma resolved_mandatory:
  assumes nu: "\<not> unresolved selectbox df" and k: "k \<in> set MANDATORY"
    and sel: "\<forall>k\<in>set MANDATORY. \<forall>c. selectbox k = Some c \<longrightarrow> c \<in> set (df_columns df)"
  shows "resolved df (final_mapping selectbox df) k \<noteq> None"
proof -
  let ?m0 = "build_mapping df"
  have g: "dict_get (final_mapping selectbox df) k =
      (if k \<in> set (missing_of ?m0) then selectbox k else dict_get ?m0 k)"
    by (simp add: final_mapping_def dict_get_ask_missing)
  obtain c where c: "dict_get (final_mapping selectbox df) k = Some c" "c \<in> set (df_columns df)"
  proof (cases "k \<in> set (missing_of ?m0)")
    case True
    then have "dict_get ?m0 k = None" by (simp add: missing_build_mapping)
    with nu k have "selectbox k \<noteq> None"
      by (auto simp: unresolved_def list_ex_iff)
    then obtain c where "selectbox k = Some c" by auto
    with sel k True g that show ?thesis by auto
  next
    case False
    with k have "dict_get ?m0 k \<noteq> None" by (simp add: missing_build_mapping)
    then obtain c where "dict_get ?m0 k = Some c" by auto
    with False g that dict_get_build_mapping show ?thesis by auto
  qed
  from getitem_columns[OF c(2)] c(1) show ?thesis
    by (auto simp: resolved_def)
qed

lemma pipeline_frames:
  assumes w: "wf_df df"
  shows "\<exists>ids rs ps.
     getitem (project df m) ''id'' = Some ids \<and>
     getitem (after_id (project df m) ids) ''role'' = Some rs \<and>
     getitem (project df m) ''phone'' = Some ps \<and>
     wf_df (after_phone nd (after_role (after_id (project df m) ids) rs) ps) \<and>
     df_columns (after_phone nd (after_role (after_id (project df m) ids) rs) ps) =
       DEFAULT_COLUMNS \<and>
     nrows (after_phone nd (after_role (after_id (project df m) ids) rs) ps) =
       nrows (project df m)"
proof -
  let ?u0 = "project df m"
  from w have r: "rect df" by (simp add: wf_df_rect)
  have w0: "wf_df ?u0" and c0: "df_columns ?u0 = DEFAULT_COLUMNS"
    using wf_project[OF r] project_inv(1)[OF r] by simp_all
  have "''id'' \<in> set (df_columns ?u0)"
    by (simp add: c0 DEFAULT_COLUMNS_def)
  then obtain ids where ids: "getitem ?u0 ''id'' = Some ids"
    using getitem_columns by blast
  from w0 ids have "length ids = nrows ?u0"
    by (auto simp: wf_df_rect dest: rect_getitem)
  then have "length (new_ids ?u0 ids) = length ids"
    by (simp add: length_new_ids)
  from stage_ok[OF w0 ids this]
  have w1: "wf_df (after_id ?u0 ids)" and c1: "df_columns (after_id ?u0 ids) = DEFAULT_COLUMNS"
    and n1: "nrows (after_id ?u0 ids) = nrows ?u0"
    by (simp_all add: after_id_def c0)
  have "''role'' \<in> set (df_columns (after_id ?u0 ids))"
    by (simp add: c1 DEFAULT_COLUMNS_def)
  then obtain rs where rs: "getitem (after_id ?u0 ids) ''role'' = Some rs"
    using getitem_columns by blast
  have "length (map (\<lambda>v. Str (normalize_role v)) rs) = length rs" by simp
  from stage_ok[OF w1 rs this]
  have w2: "wf_df (after_role (after_id ?u0 ids) rs)"
    and c2: "df_columns (after_role (after_id ?u0 ids) rs) = DEFAULT_COLUMNS"
    and n2: "nrows (after_role (after_id ?u0 ids) rs) = nrows ?u0"
    by (simp_all add: after_role_def c1 n1)
  have "''phone'' \<in> set (df_columns (after_role (after_id ?u0 ids) rs))"
    by (simp add: c2 DEFAULT_COLUMNS_def)
  then obtain ps where ps: "getitem (after_role (after_id ?u0 ids) rs) ''phone'' = Some ps"
    using getitem_columns by blast
  have "length (map (\<lambda>v. Str (sub_non_digit nd (py_str v))) ps) = length ps" by simp
  from stage_ok[OF w2 ps this]
  have "wf_df (after_phone nd (after_role (after_id ?u0 ids) rs) ps)"
    and "df_columns (after_phone nd (after_role (after_id ?u0 ids) rs) ps) = DEFAULT_COLUMNS"
    and "nrows (after_phone nd (after_role (after_id ?u0 ids) rs) ps) = nrows ?u0"
    by (simp_all add: after_phone_def c2 n2)
  with ids rs ps show ?thesis
    by (auto simp: phone_untouched)
qed

text \<open>
  What \<^verbatim>\<open>ensure_schema\<close> does with a well-formed raw table. When a mandatory field is
  left unmapped by alias matching and the user selects no column for it, the script stops.
  Otherwise, when the pandas keeps a missing value under \<^verbatim>\<open>astype(str)\<close> and a cell of the
  projected phone is missing, the step ``Clean phone'' raises \<^verbatim>\<open>TypeError\<close>. In every
  other case a rectangular table with exactly the ten default columns is returned, with one
  row per raw row when the columns that the user selects are columns of the raw table.
\<close>

lemma ensure_schema_outcome:
  assumes w: "wf_df df"
  shows "(unresolved selectbox df \<longrightarrow> ensure_schema pd nd selectbox df = Inl StopException) \<and>
     (\<not> unresolved selectbox df \<longrightarrow>
        (\<exists>ps. getitem (project df (final_mapping selectbox df)) ''phone'' = Some ps \<and>
           (phone_fails pd ps \<longrightarrow> ensure_schema pd nd selectbox df = Inl TypeError) \<and>
           (\<not> phone_fails pd ps \<longrightarrow>
              (\<exists>t. ensure_schema pd nd selectbox df = Inr t \<and> df_columns t = DEFAULT_COLUMNS \<and>
                 wf_df t \<and>
                 ((\<forall>k\<in>set MANDATORY. \<forall>c. selectbox k = Some c \<longrightarrow> c \<in> set (df_columns df)) \<longrightarrow>
                    nrows t = nrows df)))))"
proof (intro conjI impI)
  assume "unresolved selectbox df"
  then show "ensure_schema pd nd selectbox df = Inl StopException"
    by (rule ensure_schema_stop)
next
  assume nu: "\<not> unresolved selectbox df"
  let ?u0 = "project df (final_mapping selectbox df)"
  from pipeline_frames[OF w, of "final_mapping selectbox df" nd] obtain ids rs ps where
    g: "getitem ?u0 ''id'' = Some ids" "getitem (after_id ?u0 ids) ''role'' = Some rs" and
    ph: "getitem ?u0 ''phone'' = Some ps" and
    p: "wf_df (after_phone nd (after_role (after_id ?u0 ids) rs) ps)"
       "df_columns (after_phone nd (after_role (after_id ?u0 ids) rs) ps) = DEFAULT_COLUMNS"
       "nrows (after_phone nd (after_role (after_id ?u0 ids) rs) ps) = nrows ?u0"
    by blast
  have e: "ensure_schema pd nd selectbox df =
      (if phone_fails pd ps then Inl TypeError
       else Inr (fillna (Str '''') (after_phone nd (after_role (after_id ?u0 ids) rs) ps)))"
    by (simp add: ensure_schema_chain[OF nu g] clean_phone_cases phone_untouched ph)
  have rows: "nrows ?u0 = nrows df"
    if sel: "\<forall>k\<in>set MANDATORY. \<forall>c. selectbox k = Some c \<longrightarrow> c \<in> set (df_columns df)"
  proof -
    have "''city'' \<in> set MANDATORY" by (simp add: MANDATORY_def)
    from resolved_mandatory[OF nu this sel]
    have "any_resolved df (final_mapping selectbox df) DEFAULT_COLUMNS"
      by (simp add: any_resolved_def DEFAULT_COLUMNS_def)
    moreover from w have "rect df" by (simp add: wf_df_rect)
    ultimately show ?thesis
      by (simp add: project_inv(2))
  qed
  have f: "phone_fails pd ps \<longrightarrow> ensure_schema pd nd selectbox df = Inl TypeError"
    by (simp add: e)
  have r: "\<not> phone_fails pd ps \<longrightarrow>
      (\<exists>t. ensure_schema pd nd selectbox df = Inr t \<and> df_columns t = DEFAULT_COLUMNS \<and>
         wf_df t \<and>
         ((\<forall>k\<in>set MANDATORY. \<forall>c. selectbox k = Some c \<longrightarrow> c \<in> set (df_columns df)) \<longrightarrow>
            nrows t = nrows df))"
    using p rows by (simp add: e wf_fillna df_columns_fillna nrows_fillna)
  from ph f r show "\<exists>ps. getitem ?u0 ''phone'' = Some ps \<and>
           (phone_fails pd ps \<longrightarrow> ensure_schema pd nd selectbox df = Inl TypeError) \<and>
           (\<not> phone_fails pd ps \<longrightarrow>
              (\<exists>t. ensure_schema pd nd selectbox df = Inr t \<and> df_columns t = DEFAULT_COLUMNS \<and>
                 wf_df t \<and>
                 ((\<forall>k\<in>set MANDATORY. \<forall>c. selectbox k = Some c \<longrightarrow> c \<in> set (df_columns df)) \<longrightarrow>
                    nrows t = nrows df)))"
    by blast
qed

text \<open>
  Claim C3 on the table whose first row has an empty phone cell, with no mandatory field
  unmapped: under a pandas that keeps a missing value under \<^verbatim>\<open>astype(str)\<close> the function
  of the step ``Clean phone'' gets the missing value, \<^verbatim>\<open>re.sub\<close> raises
  \<^verbatim>\<open>TypeError\<close>, and no table is returned. Under a pandas that turns the missing value
  into the string \<^verbatim>\<open>nan\<close> the same table is normalized, with an empty phone.
\<close>

theorem blank_phone_raises:
  "missing_of (build_mapping blank_phone_table) = [] \<and>
   ensure_schema Pandas3 nd no_selection blank_phone_table = Inl TypeError \<and>
   (case ensure_schema Pandas2 nd no_selection blank_phone_table of
      Inl e \<Rightarrow> None | Inr t \<Rightarrow> getitem t ''phone'') = Some [Str '''', Str ''222'']"
  by code_simp

section \<open>The cells of the normalized table\<close>

lemma ensure_schema_Inr:
  assumes "ensure_schema pd nd selectbox df = Inr t"
  shows "\<exists>ids rs ps.
     t = fillna (Str '''')
           (after_phone nd
             (after_role (after_id (project df (final_mapping selectbox df)) ids) rs) ps)"
proof -
  let ?u0 = "project df (final_mapping selectbox df)"
  from assms obtain u1 u2 u3 where
    1: "coerce_id ?u0 = Inr u1" and 2: "apply_role u1 = Inr u2" and
    3: "clean_phone pd nd u2 = Inr u3" and t: "t = fillna (Str '''') u3"
    by (auto simp: ensure_schema_def Let_def final_mapping_def split: if_splits sum.splits)
  from 1 obtain ids where ids: "u1 = after_id ?u0 ids"
    by (auto simp: coerce_id_new_ids after_id_def split: option.splits)
  from 2 obtain rs where rs: "u2 = after_role u1 rs"
    by (auto simp: apply_role_def after_role_def split: option.splits)
  from 3 obtain ps where ps: "u3 = after_phone nd u2 ps"
    by (auto simp: clean_phone_cases split: option.splits if_splits)
  from ids rs ps t show ?thesis by blast
qed

text \<open>
  Claim C8, as the code has it. The last step replaces every missing cell by the empty
  string and leaves every other cell as it is, so that no cell of the normalized table is
  null. The cells of the id are integers, the cells of the role are the strings
  \<^verbatim>\<open>"Provider"\<close> and \<^verbatim>\<open>"Receiver"\<close>, the cells of the phone are strings; the cells of
  the seven other fields are the cells of the projection, of whatever type, with the
  missing ones replaced by the empty string.
\<close>

theorem normalized_cells:
  "ensure_schema pd nd selectbox df = Inr t \<Longrightarrow>
     (\<forall>(c, vs)\<in>set (cols t). \<forall>v\<in>set vs. v \<noteq> NaN) \<and>
     (\<exists>ids. getitem t ''id'' = Some ids \<and> (\<forall>v\<in>set ids. \<exists>i. v = Num i)) \<and>
     (\<exists>rs. getitem t ''role'' = Some rs \<and>
            (\<forall>v\<in>set rs. v = Str ''Provider'' \<or> v = Str ''Receiver'')) \<and>
     (\<exists>ps. getitem t ''phone'' = Some ps \<and> (\<forall>v\<in>set ps. \<exists>s. v = Str s)) \<and>
     (\<forall>c\<in>set [''city'', ''name'', ''food_type'', ''meal_type'', ''email'', ''address'',
                ''notes''].
        getitem t c =
          map_option (map (\<lambda>x. if isna x then Str '''' else x))
            (getitem (project df (final_mapping selectbox df)) c))"
proof -
  assume "ensure_schema pd nd selectbox df = Inr t"
  let ?u0 = "project df (final_mapping selectbox df)"
  from ensure_schema_Inr[OF \<open>ensure_schema pd nd selectbox df = Inr t\<close>] obtain ids rs ps where
    t: "t = fillna (Str '''') (after_phone nd (after_role (after_id ?u0 ids) rs) ps)"
    by blast
  let ?fill = "\<lambda>x. if isna x then Str '''' else x"
  have a: "\<forall>(c, vs)\<in>set (cols t). \<forall>v\<in>set vs. v \<noteq> NaN"
    unfolding t using cells_fillna by fastforce
  have gid: "getitem t ''id'' = Some (map ?fill (new_ids ?u0 ids))"
    by (simp add: t getitem_fillna after_phone_def after_role_def after_id_def getitem_put_col)
  have "\<forall>v\<in>set (map ?fill (new_ids ?u0 ids)). \<exists>i. v = Num i"
    using new_ids_Num by fastforce
  with gid have b: "\<exists>ids. getitem t ''id'' = Some ids \<and> (\<forall>v\<in>set ids. \<exists>i. v = Num i)"
    by blast
  have grole: "getitem t ''role'' = Some (map ?fill (map (\<lambda>v. Str (normalize_role v)) rs))"
    by (simp add: t getitem_fillna after_phone_def after_role_def getitem_put_col)
  have "\<forall>v\<in>set (map ?fill (map (\<lambda>v. Str (normalize_role v)) rs)).
      v = Str ''Provider'' \<or> v = Str ''Receiver''"
    by (auto simp: normalize_role_cases)
  with grole have c: "\<exists>rs. getitem t ''role'' = Some rs \<and>
      (\<forall>v\<in>set rs. v = Str ''Provider'' \<or> v = Str ''Receiver'')"
    by blast
  have gphone: "getitem t ''phone'' =
      Some (map ?fill (map (\<lambda>v. Str (sub_non_digit nd (py_str v))) ps))"
    by (simp add: t getitem_fillna after_phone_def getitem_put_col)
  have "\<forall>v\<in>set (map ?fill (map (\<lambda>v. Str (sub_non_digit nd (py_str v))) ps)). \<exists>s. v = Str s"
    by auto
  with gphone have d: "\<exists>ps. getitem t ''phone'' = Some ps \<and> (\<forall>v\<in>set ps. \<exists>s. v = Str s)"
    by blast
  have other: "getitem t c = map_option (map ?fill) (getitem ?u0 c)"
    if "c \<noteq> ''id''" "c \<noteq> ''role''" "c \<noteq> ''phone''" for c
    using that
    by (simp add: t getitem_fillna after_phone_def after_role_def after_id_def getitem_put_col)
  have e: "\<forall>c\<in>set [''city'', ''name'', ''food_type'', ''meal_type'', ''email'', ''address'',
                ''notes'']. getitem t c = map_option (map ?fill) (getitem ?u0 c)"
    by (auto intro!: other)
  from a b c d e show ?thesis by blast
qed

lemma blank_email_normalized:
  "ensure_schema Pandas3 arabic_indic no_selection blank_email_table = Inr blank_email_result"
  by code_simp

lemma blank_email_projected:
  "getitem (project blank_email_table (final_mapping no_selection blank_email_table)) ''email'' =
     Some [NaN, Str ''b@c.org'']"
  by code_simp

theorem normalized_cells_witness:
  "ensure_schema Pandas3 arabic_indic no_selection blank_email_table = Inr blank_email_result \<and>
   getitem (project blank_email_table (final_mapping no_selection blank_email_table)) ''email'' =
     Some [NaN, Str ''b@c.org''] \<and>
   getitem blank_email_result ''email'' = Some [Str '''', Str ''b@c.org''] \<and>
   list_all (\<lambda>(c, vs). list_all (\<lambda>v. v \<noteq> NaN) vs) (cols blank_email_result)"
proof -
  note n = normalized_cells [OF blank_email_normalized]
  have "\<forall>(c, vs)\<in>set (cols blank_email_result). \<forall>v\<in>set vs. v \<noteq> NaN"
    using n by (rule conjunct1)
  then have 1: "list_all (\<lambda>(c, vs). list_all (\<lambda>v. v \<noteq> NaN) vs) (cols blank_email_result)"
    unfolding list_all_iff .
  have "\<forall>c\<in>set [''city'', ''name'', ''food_type'', ''meal_type'', ''email'', ''address'',
                ''notes''].
      getitem blank_email_result c =
        map_option (map (\<lambda>x. if isna x then Str '''' else x))
          (getitem (project blank_email_table (final_mapping no_selection blank_email_table)) c)"
    using n by (elim conjE)
  then have "getitem blank_email_result ''email'' =
      map_option (map (\<lambda>x. if isna x then Str '''' else x))
        (getitem (project blank_email_table (final_mapping no_selection blank_email_table))
          ''email'')"
    by simp
  then have 2: "getitem blank_email_result ''email'' = Some [Str '''', Str ''b@c.org'']"
    by (simp add: blank_email_projected)
  from blank_email_normalized blank_email_projected 2 1 show ?thesis
    by (intro conjI)
qed

lemma scenario_normalized:
  "ensure_schema Pandas3 arabic_indic no_selection scenario_table = Inr scenario_result"
  by code_simp

theorem id_cell_not_string:
  "ensure_schema Pandas3 arabic_indic no_selection scenario_table = Inr scenario_result \<and>
   getitem scenario_result ''id'' = Some [Num 1]"
  using scenario_normalized by (simp add: scenario_result_def getitem_def)

section \<open>The repaired ids\<close>

text \<open>
  The step ``Coerce ID'' on an id column with no missing value that is not all blank
  stores the ids 1, ..., k for its k distinct raw ids, the same id for the same raw id;
  on an id column that is all missing or all blank it stores 1, ..., n in row order.
\<close>

lemma uniques_from_prefix: "\<exists>ws. uniques_from us vs = us @ ws"
proof (induction vs arbitrary: us)
  case Nil
  show ?case by simp
next
  case (Cons v vs)
  show ?case
  proof (cases "isna v \<or> v \<in> set us")
    case True
    with Cons.IH[of us] show ?thesis by simp
  next
    case False
    from Cons.IH[of "us @ [v]"] obtain ws where "uniques_from (us @ [v]) vs = (us @ [v]) @ ws"
      by blast
    with False show ?thesis by simp
  qed
qed

lemma distinct_uniques_from: "distinct us \<Longrightarrow> distinct (uniques_from us vs)"
  by (induction vs arbitrary: us) auto

lemma set_uniques_from: "set (uniques_from us vs) = set us \<union> {v \<in> set vs. \<not> isna v}"
  by (induction vs arbitrary: us) auto

lemma index_of_None: "index_of us v = None \<longleftrightarrow> v \<notin> set us"
  by (induction us) auto

lemma index_of_Some: "index_of us v = Some i \<Longrightarrow> i < length us \<and> us ! i = v"
  by (induction us arbitrary: i) (auto split: if_splits)

lemma index_of_append_in: "index_of us v = Some i \<Longrightarrow> index_of (us @ ws) v = Some i"
  by (induction us arbitrary: i) (auto split: if_splits)

lemma index_of_append_new: "v \<notin> set us \<Longrightarrow> index_of (us @ v # ws) v = Some (length us)"
  by (induction us) auto

lemma index_of_nth: "distinct us \<Longrightarrow> i < length us \<Longrightarrow> index_of us (us ! i) = Some i"
proof (induction us arbitrary: i)
  case Nil
  then show ?case by simp
next
  case (Cons u us)
  show ?case
  proof (cases i)
    case 0
    then show ?thesis by simp
  next
    case (Suc j)
    with Cons.prems have "us ! j \<in> set us" "u \<notin> set us" by simp_all
    then have "u \<noteq> us ! j" by blast
    with Suc Cons show ?thesis by simp
  qed
qed

lemma factorize_from_codes:
  "factorize_from us vs = map (code_of (uniques_from us vs)) vs"
proof (induction vs arbitrary: us)
  case Nil
  show ?case by simp
next
  case (Cons v vs)
  show ?case
  proof (cases "isna v")
    case True
    then show ?thesis by (simp add: Cons.IH code_of_def)
  next
    case na: False
    show ?thesis
    proof (cases "index_of us v")
      case None
      then have nin: "v \<notin> set us" by (simp add: index_of_None)
      obtain ws where ws: "uniques_from (us @ [v]) vs = (us @ [v]) @ ws"
        using uniques_from_prefix by blast
      have "index_of (uniques_from (us @ [v]) vs) v = Some (length us)"
        using index_of_append_new[OF nin, of ws] by (simp add: ws)
      with na None nin show ?thesis
        by (simp add: Cons.IH code_of_def)
    next
      case (Some i)
      then have vin: "v \<in> set us"
        using index_of_None[of us v] by auto
      obtain ws where ws: "uniques_from us vs = us @ ws"
        using uniques_from_prefix by blast
      have "index_of (uniques_from us vs) v = Some i"
        using index_of_append_in[OF Some, of ws] by (simp add: ws)
      with na Some vin show ?thesis
        by (simp add: Cons.IH code_of_def)
    qed
  qed
qed

lemma factorize_codes: "factorize vs = map (code_of (uniques_from [] vs)) vs"
  by (simp add: factorize_def factorize_from_codes)

lemma code_of_in:
  assumes "v \<in> set us"
  shows "\<not> isna v \<Longrightarrow> \<exists>i<length us. code_of us v = int i \<and> us ! i = v"
proof -
  assume na: "\<not> isna v"
  from assms obtain i where i: "index_of us v = Some i"
    using index_of_None[of us v] by (cases "index_of us v") auto
  with index_of_Some[OF i] na show ?thesis
    by (auto simp: code_of_def)
qed

text \<open>
  The codes of \<^verbatim>\<open>pd.factorize\<close> when no value is missing: with \<open>k\<close> distinct values, the
  codes are exactly \<open>0, ..., k - 1\<close>, numbered in the order in which the values are first
  seen, and two positions have the same code exactly when they have the same value.
\<close>

lemma factorize_dense:
  assumes nn: "\<forall>v\<in>set vs. \<not> isna v"
  shows "set (factorize vs) = int ` {0..<length (uniques_from [] vs)}"
    and "length (uniques_from [] vs) \<le> length vs"
    and "i < length vs \<Longrightarrow> j < length vs \<Longrightarrow>
           factorize vs ! i = factorize vs ! j \<longleftrightarrow> vs ! i = vs ! j"
proof -
  let ?us = "uniques_from [] vs"
  have d: "distinct ?us" by (simp add: distinct_uniques_from)
  have s: "set ?us = set vs" using nn by (auto simp: set_uniques_from)
  show "set (factorize vs) = int ` {0..<length ?us}"
  proof (intro equalityI subsetI)
    fix c assume "c \<in> set (factorize vs)"
    then obtain v where v: "v \<in> set vs" "c = code_of ?us v"
      by (auto simp: factorize_codes)
    with nn s code_of_in[of v ?us] show "c \<in> int ` {0..<length ?us}"
      by auto
  next
    fix c assume "c \<in> int ` {0..<length ?us}"
    then obtain p where p: "p < length ?us" "c = int p" by auto
    then have "?us ! p \<in> set vs" using s nth_mem by blast
    moreover have "code_of ?us (?us ! p) = int p"
      using index_of_nth[OF d p(1)] nn \<open>?us ! p \<in> set vs\<close> by (simp add: code_of_def)
    ultimately show "c \<in> set (factorize vs)"
      using p by (force simp: factorize_codes)
  qed
  show "length ?us \<le> length vs"
  proof -
    have "length ?us = card (set ?us)" using d by (simp add: distinct_card)
    also have "\<dots> = card (set vs)" by (simp add: s)
    also have "\<dots> \<le> length vs" by (rule card_length)
    finally show ?thesis .
  qed
  show "factorize vs ! i = factorize vs ! j \<longleftrightarrow> vs ! i = vs ! j"
    if i: "i < length vs" and j: "j < length vs"
  proof
    assume e: "factorize vs ! i = factorize vs ! j"
    from i j have vi: "vs ! i \<in> set vs" and vj: "vs ! j \<in> set vs" by simp_all
    from code_of_in[of "vs ! i" ?us] vi nn s obtain a where
      a: "a < length ?us" "code_of ?us (vs ! i) = int a" "?us ! a = vs ! i" by auto
    from code_of_in[of "vs ! j" ?us] vj nn s obtain b where
      b: "b < length ?us" "code_of ?us (vs ! j) = int b" "?us ! b = vs ! j" by auto
    from e i j a(2) b(2) have "a = b" by (simp add: factorize_codes)
    with a(3) b(3) show "vs ! i = vs ! j" by simp
  next
    assume "vs ! i = vs ! j"
    with i j show "factorize vs ! i = factorize vs ! j"
      by (simp add: factorize_codes)
  qed
qed

lemma new_ids_dense:
  assumes nn: "\<forall>v\<in>set ids. \<not> isna v" and nb: "\<not> list_all (\<lambda>v. v = Str '''') ids"
  shows "set (new_ids u ids) = Num ` {1..int (length (uniques_from [] ids))}"
    and "i < length ids \<Longrightarrow> j < length ids \<Longrightarrow>
           new_ids u ids ! i = new_ids u ids ! j \<longleftrightarrow> ids ! i = ids ! j"
proof -
  from nb have "ids \<noteq> []" by auto
  with nn have "\<not> list_all isna ids" by (cases ids) auto
  with nb have n: "new_ids u ids = map (\<lambda>code. Num (code + 1)) (factorize ids)"
    by (simp add: new_ids_def)
  let ?k = "length (uniques_from [] ids)"
  have "(\<lambda>code. code + 1) ` int ` {0..<?k} = {1..int ?k}"
  proof (intro equalityI subsetI)
    fix x assume "x \<in> (\<lambda>code. code + 1) ` int ` {0..<?k}"
    then show "x \<in> {1..int ?k}" by auto
  next
    fix x assume x: "x \<in> {1..int ?k}"
    then have "nat (x - 1) \<in> {0..<?k}" "x = int (nat (x - 1)) + 1" by auto
    then show "x \<in> (\<lambda>code. code + 1) ` int ` {0..<?k}" by blast
  qed
  moreover have "(\<lambda>code. Num (code + 1)) ` int ` {0..<?k} =
      Num ` ((\<lambda>code. code + 1) ` int ` {0..<?k})"
    by (simp only: image_image)
  ultimately have "(\<lambda>code. Num (code + 1)) ` int ` {0..<?k} = Num ` {1..int ?k}"
    by simp
  then show "set (new_ids u ids) = Num ` {1..int ?k}"
    by (simp add: n factorize_dense(1)[OF nn] image_image)
  show "new_ids u ids ! i = new_ids u ids ! j \<longleftrightarrow> ids ! i = ids ! j"
    if "i < length ids" "j < length ids"
    using that factorize_dense(3)[OF nn that] by (simp add: n length_factorize)
qed

lemma new_ids_blank:
  "list_all isna ids \<or> list_all (\<lambda>v. v = Str '''') ids \<Longrightarrow>
     new_ids u ids = map (\<lambda>k. Num (int k)) [1..<nrows u + 1]"
  by (simp add: new_ids_def)

text \<open>
  Claim C1 on the table with two rows of raw id \<^verbatim>\<open>A1\<close>: the step ``ensure uniqueness''
  gives both rows the id 1, so the ids of the two rows are not distinct and are not 1, 2.
\<close>

theorem same_raw_id_same_id:
  "(case ensure_schema pd nd no_selection same_id_table of
      Inl e \<Rightarrow> None | Inr t \<Rightarrow> getitem t ''id'') = Some [Num 1, Num 1]"
  by code_simp

text \<open>
  Claim C2 on the table whose first row has an empty id and whose second row has the raw id
  \<^verbatim>\<open>A1\<close>: the sentinel \<open>-1\<close> of \<^verbatim>\<open>pd.factorize\<close> for the missing value becomes the id 0,
  so the ids are 0 and 1 and not 1, ..., k.
\<close>

theorem blank_raw_id_gets_zero:
  "(case ensure_schema pd nd no_selection blank_id_table of
      Inl e \<Rightarrow> None | Inr t \<Rightarrow> getitem t ''id'') = Some [Num 0, Num 1]"
  by code_simp

text \<open>
  Claim C6 on the table whose second row has an empty id: the normalizer gives the ids
  1, 0, 2, and applied to its own result it gives the ids 1, 2, 3.
\<close>

theorem second_pass_changes_ids:
  "(case ensure_schema pd nd no_selection gap_id_table of
      Inl e \<Rightarrow> None | Inr t \<Rightarrow> getitem t ''id'') = Some [Num 1, Num 0, Num 2] \<and>
   (case ensure_schema pd nd no_selection gap_id_table of
      Inl e \<Rightarrow> None
    | Inr t \<Rightarrow> (case ensure_schema pd nd no_selection t of
                  Inl e \<Rightarrow> None | Inr t' \<Rightarrow> getitem t' ''id'')) = Some [Num 1, Num 2, Num 3]"
  by code_simp

end
